theory Spec2Isabelle
  imports Main "HOL-Library.Char_ord" "HOL-Library.List_Lexorder"
begin

section \<open>Python values and the JSON codec used by the settings store\<close>

text \<open>
  \<^verbatim>\<open>settings.py\<close> stores every value as text: \<^verbatim>\<open>json.dumps(value)\<close> unless the value
  is already a \<^verbatim>\<open>str\<close>, and reads it back with \<^verbatim>\<open>json.loads\<close>, falling back to the raw
  text. The values are the ones of JSON's data model: \<^verbatim>\<open>None\<close>, booleans, integers
  (unbounded, as Python's), strings, lists and dictionaries with string keys (kept in
  insertion order, as an association list). A Python \<^verbatim>\<open>str\<close> is a \<open>string\<close>: its
  characters are the code points below 256. Floats are not part of the model.
\<close>

datatype pyval =
    PNone
  | PBool bool
  | PInt int
  | PStr string
  | PList "pyval list"
  | PDict "(string \<times> pyval) list"

text \<open>Characters that cannot be written inside a string literal.\<close>

abbreviation dquote :: char where "dquote \<equiv> CHR 0x22"
abbreviation backslash :: char where "backslash \<equiv> CHR 0x5C"

subsection \<open>\<^verbatim>\<open>json.dumps\<close> with its default options\<close>

definition digit_char :: "nat \<Rightarrow> char" where
  "digit_char d = char_of (48 + d)"

definition hexdigit :: "nat \<Rightarrow> char" where
  "hexdigit d = (if d < 10 then char_of (48 + d) else char_of (87 + d))"

text \<open>
  \<^verbatim>\<open>py_encode_basestring_ascii\<close>: the quote and the backslash are escaped, the control
  characters with a short name get it, everything else outside \<^verbatim>\<open>' '..'~'\<close> becomes
  \<^verbatim>\<open>\uXXXX\<close> with lower-case hexadecimal digits.
\<close>

definition escape_char :: "char \<Rightarrow> string" where
  "escape_char c =
    (if c = dquote then [backslash, dquote]
     else if c = backslash then [backslash, backslash]
     else if c = CHR 0x0A then [backslash, CHR ''n'']
     else if c = CHR 0x0D then [backslash, CHR ''r'']
     else if c = CHR 0x09 then [backslash, CHR ''t'']
     else if c = CHR 0x0C then [backslash, CHR ''f'']
     else if c = CHR 0x08 then [backslash, CHR ''b'']
     else if 32 \<le> (of_char c :: nat) \<and> (of_char c :: nat) \<le> 126 then [c]
     else [backslash, CHR ''u'', CHR ''0'', CHR ''0'',
           hexdigit ((of_char c :: nat) div 16), hexdigit ((of_char c :: nat) mod 16)])"

definition encode_basestring_ascii :: "string \<Rightarrow> string" where
  "encode_basestring_ascii s = dquote # concat (map escape_char s) @ [dquote]"

text \<open>\<^verbatim>\<open>int.__repr__\<close>: decimal digits, most significant first, a minus sign if negative.\<close>

fun show_nat :: "nat \<Rightarrow> string" where
  "show_nat n = (if n < 10 then [digit_char n] else show_nat (n div 10) @ [digit_char (n mod 10)])"

declare show_nat.simps [simp del]

definition show_int :: "int \<Rightarrow> string" where
  "show_int i = (if i < 0 then CHR ''-'' # show_nat (nat (- i)) else show_nat (nat i))"

text \<open>\<^verbatim>\<open>', '.join(parts)\<close>.\<close>

fun join_comma :: "string list \<Rightarrow> string" where
  "join_comma [] = []"
| "join_comma [p] = p"
| "join_comma (p # q # ps) = p @ '', '' @ join_comma (q # ps)"

fun json_dumps :: "pyval \<Rightarrow> string" where
  "json_dumps PNone = ''null''"
| "json_dumps (PBool b) = (if b then ''true'' else ''false'')"
| "json_dumps (PInt i) = show_int i"
| "json_dumps (PStr s) = encode_basestring_ascii s"
| "json_dumps (PList xs) = ''['' @ join_comma (map json_dumps xs) @ '']''"
| "json_dumps (PDict kvs) =
     ''{'' @ join_comma (map (\<lambda>(k, v). encode_basestring_ascii k @ '': '' @ json_dumps v) kvs) @ ''}''"

subsection \<open>\<^verbatim>\<open>json.loads\<close>\<close>

text \<open>
  The decoder either returns a value, or raises \<^verbatim>\<open>JSONDecodeError\<close>, or meets text whose
  value is outside this model (\<open>NotModelled\<close>: a float literal, \<^verbatim>\<open>NaN\<close>, \<^verbatim>\<open>Infinity\<close>, or
  a \<^verbatim>\<open>\uXXXX\<close> escape of a code point above 255), about which the model says nothing.
  \<open>OutOfFuel\<close> is the recursion bound of the model running out; \<open>json_loads\<close> never
  returns it (lemma \<open>json_loads_fuel\<close>).
\<close>

datatype json_error = JSONDecodeError | NotModelled | OutOfFuel

definition bind_r :: "'e + 'a \<Rightarrow> ('a \<Rightarrow> 'e + 'b) \<Rightarrow> 'e + 'b" where
  "bind_r m f = (case m of Inl e \<Rightarrow> Inl e | Inr x \<Rightarrow> f x)"

text \<open>\<^verbatim>\<open>WHITESPACE = re.compile(r'[ \t\n\r]*')\<close>.\<close>

definition is_ws :: "char \<Rightarrow> bool" where
  "is_ws c = (c = CHR '' '' \<or> c = CHR 0x09 \<or> c = CHR 0x0A \<or> c = CHR 0x0D)"

definition skip_ws :: "string \<Rightarrow> string" where
  "skip_ws s = dropWhile is_ws s"

definition is_digit :: "char \<Rightarrow> bool" where
  "is_digit c = (48 \<le> (of_char c :: nat) \<and> (of_char c :: nat) \<le> 57)"

definition digit_val :: "char \<Rightarrow> nat" where
  "digit_val c = of_char c - 48"

definition hex_val :: "char \<Rightarrow> nat option" where
  "hex_val c =
    (let n = (of_char c :: nat) in
     if 48 \<le> n \<and> n \<le> 57 then Some (n - 48)
     else if 97 \<le> n \<and> n \<le> 102 then Some (n - 87)
     else if 65 \<le> n \<and> n \<le> 70 then Some (n - 55)
     else None)"

text \<open>\<^verbatim>\<open>_decode_uXXXX\<close>: four hexadecimal digits after the \<^verbatim>\<open>u\<close>.\<close>

fun decode_uXXXX :: "string \<Rightarrow> (nat \<times> string) option" where
  "decode_uXXXX (a # b # c # d # r) =
     (case (hex_val a, hex_val b, hex_val c, hex_val d) of
        (Some x, Some y, Some z, Some w) \<Rightarrow> Some (((x * 16 + y) * 16 + z) * 16 + w, r)
      | _ \<Rightarrow> None)"
| "decode_uXXXX _ = None"

text \<open>The \<^verbatim>\<open>BACKSLASH\<close> table of \<^verbatim>\<open>json.decoder\<close>.\<close>

definition unescape :: "char \<Rightarrow> char option" where
  "unescape e =
    (if e = dquote then Some dquote
     else if e = backslash then Some backslash
     else if e = CHR ''/'' then Some CHR ''/''
     else if e = CHR ''b'' then Some (CHR 0x08)
     else if e = CHR ''f'' then Some (CHR 0x0C)
     else if e = CHR ''n'' then Some (CHR 0x0A)
     else if e = CHR ''r'' then Some (CHR 0x0D)
     else if e = CHR ''t'' then Some (CHR 0x09)
     else None)"

text \<open>
  \<^verbatim>\<open>scanstring\<close> (strict): the text after the opening quote, up to the closing one. It
  returns the decoded string and the rest of the input. A raw control character, an
  unknown escape and a missing closing quote are errors.
\<close>

fun scanstring :: "string \<Rightarrow> json_error + (string \<times> string)" where
  "scanstring [] = Inl JSONDecodeError"
| "scanstring (c # cs) =
    (if c = dquote then Inr ([], cs)
     else if c = backslash then
       (case cs of
          [] \<Rightarrow> Inl JSONDecodeError
        | e # r \<Rightarrow>
            if e = CHR ''u'' then
              (case r of
                 a # b # x # d # r' \<Rightarrow>
                   (case decode_uXXXX [a, b, x, d] of
                      None \<Rightarrow> Inl JSONDecodeError
                    | Some (u, _) \<Rightarrow>
                        if u < 256 then
                          bind_r (scanstring r') (\<lambda>(t, r''). Inr (char_of u # t, r''))
                        else Inl NotModelled)
               | _ \<Rightarrow> Inl JSONDecodeError)
            else
              (case unescape e of
                 None \<Rightarrow> Inl JSONDecodeError
               | Some ch \<Rightarrow> bind_r (scanstring r) (\<lambda>(t, r'). Inr (ch # t, r'))))
     else if (of_char c :: nat) < 32 then Inl JSONDecodeError
     else bind_r (scanstring cs) (\<lambda>(t, r). Inr (c # t, r)))"

text \<open>
  \<^verbatim>\<open>NUMBER_RE = (-?(?:0|[1-9][0-9]*))(\.[0-9]+)?([eE][-+]?[0-9]+)?\<close>. \<open>match_number\<close> is
  the first group: the sign, the digits of the integer part, and the input after them.
  \<open>is_float_tail\<close> tells whether the second or the third group matches there.
\<close>

definition match_number :: "string \<Rightarrow> (bool \<times> string \<times> string) option" where
  "match_number s =
    (let (neg, s1) = (case s of [] \<Rightarrow> (False, []) | c # r \<Rightarrow> if c = CHR ''-'' then (True, r) else (False, s))
     in case s1 of
          [] \<Rightarrow> None
        | d # r \<Rightarrow>
            if d = CHR ''0'' then Some (neg, [d], r)
            else if is_digit d then Some (neg, takeWhile is_digit s1, dropWhile is_digit s1)
            else None)"

definition is_float_tail :: "string \<Rightarrow> bool" where
  "is_float_tail r =
    (case r of
       c # d # r' \<Rightarrow>
         (c = CHR ''.'' \<and> is_digit d) \<or>
         ((c = CHR ''e'' \<or> c = CHR ''E'') \<and>
          (is_digit d \<or> ((d = CHR ''+'' \<or> d = CHR ''-'') \<and> (case r' of [] \<Rightarrow> False | x # _ \<Rightarrow> is_digit x))))
     | _ \<Rightarrow> False)"

text \<open>\<^verbatim>\<open>int(text)\<close> on a run of decimal digits.\<close>

definition digits_val :: "string \<Rightarrow> nat" where
  "digits_val ds = foldl (\<lambda>a c. 10 * a + digit_val c) 0 ds"

text \<open>
  \<^verbatim>\<open>dict(pairs)\<close>: a key met again keeps its place and takes the later value.
\<close>

fun dict_setitem :: "'k \<Rightarrow> 'v \<Rightarrow> ('k \<times> 'v) list \<Rightarrow> ('k \<times> 'v) list" where
  "dict_setitem k v [] = [(k, v)]"
| "dict_setitem k v ((k', v') # d) = (if k' = k then (k, v) # d else (k', v') # dict_setitem k v d)"

definition dict_of_pairs :: "('k \<times> 'v) list \<Rightarrow> ('k \<times> 'v) list" where
  "dict_of_pairs ps = foldl (\<lambda>d (k, v). dict_setitem k v d) [] ps"

text \<open>
  \<^verbatim>\<open>scan_once\<close> with \<^verbatim>\<open>JSONArray\<close> and \<^verbatim>\<open>JSONObject\<close>. The first argument bounds the
  number of nested calls. \<open>array_loop\<close> is the \<^verbatim>\<open>while True\<close> of \<^verbatim>\<open>JSONArray\<close>, entered
  at a value; \<open>object_loop\<close> is the one of \<^verbatim>\<open>JSONObject\<close>, entered after the opening
  quote of a key.
\<close>

fun scan_once :: "nat \<Rightarrow> string \<Rightarrow> json_error + (pyval \<times> string)"
  and array_loop :: "nat \<Rightarrow> string \<Rightarrow> json_error + (pyval list \<times> string)"
  and object_loop :: "nat \<Rightarrow> string \<Rightarrow> json_error + ((string \<times> pyval) list \<times> string)"
where
  "scan_once 0 s = Inl OutOfFuel"
| "scan_once (Suc n) [] = Inl JSONDecodeError"
| "scan_once (Suc n) (c # cs) =
    (if c = dquote then bind_r (scanstring cs) (\<lambda>(t, r). Inr (PStr t, r))
     else if c = CHR ''{'' then
       (case skip_ws cs of
          [] \<Rightarrow> Inl JSONDecodeError
        | d # r \<Rightarrow>
            if d = CHR ''}'' then Inr (PDict [], r)
            else if d = dquote then
              bind_r (object_loop n r) (\<lambda>(kvs, r'). Inr (PDict (dict_of_pairs kvs), r'))
            else Inl JSONDecodeError)
     else if c = CHR ''['' then
       (case skip_ws cs of
          [] \<Rightarrow> Inl JSONDecodeError
        | d # r \<Rightarrow>
            if d = CHR '']'' then Inr (PList [], r)
            else bind_r (array_loop n (d # r)) (\<lambda>(vs, r'). Inr (PList vs, r')))
     else if c = CHR ''n'' \<and> take 4 (c # cs) = ''null'' then Inr (PNone, drop 4 (c # cs))
     else if c = CHR ''t'' \<and> take 4 (c # cs) = ''true'' then Inr (PBool True, drop 4 (c # cs))
     else if c = CHR ''f'' \<and> take 5 (c # cs) = ''false'' then Inr (PBool False, drop 5 (c # cs))
     else
       (case match_number (c # cs) of
          Some (neg, ds, r) \<Rightarrow>
            if is_float_tail r then Inl NotModelled
            else Inr (PInt (if neg then - int (digits_val ds) else int (digits_val ds)), r)
        | None \<Rightarrow>
            if c = CHR ''N'' \<and> take 3 (c # cs) = ''NaN'' then Inl NotModelled
            else if c = CHR ''I'' \<and> take 8 (c # cs) = ''Infinity'' then Inl NotModelled
            else if c = CHR ''-'' \<and> take 9 (c # cs) = ''-Infinity'' then Inl NotModelled
            else Inl JSONDecodeError))"
| "array_loop 0 s = Inl OutOfFuel"
| "array_loop (Suc n) s =
    bind_r (scan_once n s) (\<lambda>(v, r).
      case skip_ws r of
        [] \<Rightarrow> Inl JSONDecodeError
      | c # r1 \<Rightarrow>
          if c = CHR '']'' then Inr ([v], r1)
          else if c = CHR '','' then
            bind_r (array_loop n (skip_ws r1)) (\<lambda>(vs, r2). Inr (v # vs, r2))
          else Inl JSONDecodeError)"
| "object_loop 0 s = Inl OutOfFuel"
| "object_loop (Suc n) s =
    bind_r (scanstring s) (\<lambda>(k, r).
      case skip_ws r of
        [] \<Rightarrow> Inl JSONDecodeError
      | c # r1 \<Rightarrow>
          if c \<noteq> CHR '':'' then Inl JSONDecodeError
          else
            bind_r (scan_once n (skip_ws r1)) (\<lambda>(v, r2).
              case skip_ws r2 of
                [] \<Rightarrow> Inl JSONDecodeError
              | d # r3 \<Rightarrow>
                  if d = CHR ''}'' then Inr ([(k, v)], r3)
                  else if d = CHR '','' then
                    (case skip_ws r3 of
                       [] \<Rightarrow> Inl JSONDecodeError
                     | q # r4 \<Rightarrow>
                         if q = dquote then
                           bind_r (object_loop n r4) (\<lambda>(kvs, r5). Inr ((k, v) # kvs, r5))
                         else Inl JSONDecodeError)
                  else Inl JSONDecodeError))"

text \<open>
  \<^verbatim>\<open>json.loads(s)\<close>, that is \<^verbatim>\<open>JSONDecoder.decode\<close>: white space, one value, white space,
  and then the end of the text (anything else is \<^verbatim>\<open>Extra data\<close>).
\<close>

definition json_loads :: "string \<Rightarrow> json_error + pyval" where
  "json_loads s =
    bind_r (scan_once (2 * length s + 1) (skip_ws s)) (\<lambda>(v, r).
      if skip_ws r = [] then Inr v else Inl JSONDecodeError)"

section \<open>The settings store (\<^verbatim>\<open>settings.py\<close>)\<close>

text \<open>
  The two tables of \<^verbatim>\<open>_init_database\<close>. A table is the list of its rows in insertion
  order; the primary key (\<^verbatim>\<open>key\<close>, \<^verbatim>\<open>name\<close>) is kept unique by the only statement that
  inserts, \<^verbatim>\<open>INSERT OR REPLACE\<close>. \<^verbatim>\<open>CURRENT_TIMESTAMP\<close> is the reading of the clock that
  the operation is given (in seconds).
\<close>

record setting_row =
  s_key :: string
  s_value :: string
  s_encrypted :: bool
  s_description :: "string option"
  s_created_at :: nat
  s_updated_at :: nat

record profile_row =
  p_name :: string
  p_settings :: string
  p_active :: bool
  p_created_at :: nat
  p_updated_at :: nat

text \<open>
  The manager: the Fernet cipher made from the key file, and the database. Fernet is a
  library, so the cipher is a pair of functions: \<open>encrypt\<close> takes the entropy it draws
  (initialisation vector and time stamp) and the plain text; \<open>decrypt\<close> returns \<open>None\<close>
  where Fernet raises \<^verbatim>\<open>InvalidToken\<close>. Both include the \<^verbatim>\<open>encode()\<close>/\<^verbatim>\<open>decode()\<close> around them.
\<close>

record SettingsManager =
  encrypt :: "nat \<Rightarrow> string \<Rightarrow> string"
  decrypt :: "string \<Rightarrow> string option"
  settings :: "setting_row list"
  profiles :: "profile_row list"

definition init_database :: "(nat \<Rightarrow> string \<Rightarrow> string) \<Rightarrow> (string \<Rightarrow> string option) \<Rightarrow> SettingsManager" where
  "init_database enc dec = \<lparr>encrypt = enc, decrypt = dec, settings = [], profiles = []\<rparr>"

text \<open>
  \<^verbatim>\<open>INSERT OR REPLACE\<close>: the row that holds the same primary key is deleted, then the new
  row is inserted. A column the statement does not name takes its \<^verbatim>\<open>DEFAULT\<close>.
\<close>

definition insert_or_replace :: "('r \<Rightarrow> string) \<Rightarrow> 'r \<Rightarrow> 'r list \<Rightarrow> 'r list" where
  "insert_or_replace key_of row tbl = filter (\<lambda>r. key_of r \<noteq> key_of row) tbl @ [row]"

definition encrypt_value :: "SettingsManager \<Rightarrow> nat \<Rightarrow> string \<Rightarrow> string" where
  "encrypt_value m entropy v = encrypt m entropy v"

definition decrypt_value :: "SettingsManager \<Rightarrow> string \<Rightarrow> string option" where
  "decrypt_value m t = decrypt m t"

text \<open>
  \<^verbatim>\<open>set(key, value, encrypted, description)\<close>. The statement names \<^verbatim>\<open>key, value,
  encrypted, description, updated_at\<close>; \<^verbatim>\<open>created_at\<close> takes its default
  \<^verbatim>\<open>CURRENT_TIMESTAMP\<close>.
\<close>

definition set_setting ::
  "SettingsManager \<Rightarrow> string \<Rightarrow> pyval \<Rightarrow> bool \<Rightarrow> string option \<Rightarrow> nat \<Rightarrow> nat \<Rightarrow> SettingsManager" where
  "set_setting m k v enc descr now entropy =
    (let str_value = (case v of PStr s \<Rightarrow> s | _ \<Rightarrow> json_dumps v);
         str_value' = (if enc then encrypt_value m entropy str_value else str_value)
     in m\<lparr>settings :=
          insert_or_replace s_key
            \<lparr>s_key = k, s_value = str_value', s_encrypted = enc, s_description = descr,
             s_created_at = now, s_updated_at = now\<rparr>
            (settings m)\<rparr>)"

text \<open>
  \<^verbatim>\<open>get(key, default)\<close>. \<^verbatim>\<open>InvalidToken\<close> from the cipher is not caught;
  \<^verbatim>\<open>JSONDecodeError\<close> is, and gives the text itself.
\<close>

datatype get_error = InvalidToken | ValueNotModelled

definition get :: "SettingsManager \<Rightarrow> string \<Rightarrow> pyval \<Rightarrow> get_error + pyval" where
  "get m k dflt =
    (case find (\<lambda>r. s_key r = k) (settings m) of
       None \<Rightarrow> Inr dflt
     | Some row \<Rightarrow>
         (case (if s_encrypted row then decrypt_value m (s_value row) else Some (s_value row)) of
            None \<Rightarrow> Inl InvalidToken
          | Some v \<Rightarrow>
              (case json_loads v of
                 Inr x \<Rightarrow> Inr x
               | Inl JSONDecodeError \<Rightarrow> Inr (PStr v)
               | Inl _ \<Rightarrow> Inl ValueNotModelled)))"

definition delete :: "SettingsManager \<Rightarrow> string \<Rightarrow> bool \<times> SettingsManager" where
  "delete m k =
    (find (\<lambda>r. s_key r = k) (settings m) \<noteq> None,
     m\<lparr>settings := filter (\<lambda>r. s_key r \<noteq> k) (settings m)\<rparr>)"

text \<open>
  \<^verbatim>\<open>list_settings()\<close>: the query selects \<^verbatim>\<open>key, encrypted, description, created_at,
  updated_at ... ORDER BY key\<close>, and the dictionary is filled in that order.
\<close>

record setting_info =
  i_encrypted :: bool
  i_description :: "string option"
  i_created_at :: nat
  i_updated_at :: nat

definition info_of :: "setting_row \<Rightarrow> setting_info" where
  "info_of r =
    \<lparr>i_encrypted = s_encrypted r, i_description = s_description r,
     i_created_at = s_created_at r, i_updated_at = s_updated_at r\<rparr>"

definition list_settings :: "SettingsManager \<Rightarrow> (string \<times> setting_info) list" where
  "list_settings m = map (\<lambda>r. (s_key r, info_of r)) (sort_key s_key (settings m))"

text \<open>
  \<^verbatim>\<open>create_profile(name, settings_dict)\<close>: the statement names \<^verbatim>\<open>name, settings,
  updated_at\<close>; \<^verbatim>\<open>active\<close> takes its default \<^verbatim>\<open>FALSE\<close>.
\<close>

definition create_profile ::
  "SettingsManager \<Rightarrow> string \<Rightarrow> (string \<times> pyval) list \<Rightarrow> nat \<Rightarrow> SettingsManager" where
  "create_profile m name settings_dict now =
    m\<lparr>profiles :=
        insert_or_replace p_name
          \<lparr>p_name = name, p_settings = json_dumps (PDict settings_dict), p_active = False,
           p_created_at = now, p_updated_at = now\<rparr>
          (profiles m)\<rparr>"

definition load_profile :: "SettingsManager \<Rightarrow> string \<Rightarrow> json_error + pyval option" where
  "load_profile m name =
    (case find (\<lambda>r. p_name r = name) (profiles m) of
       None \<Rightarrow> Inr None
     | Some row \<Rightarrow> bind_r (json_loads (p_settings row)) (\<lambda>v. Inr (Some v)))"

text \<open>
  \<^verbatim>\<open>set_active_profile(name)\<close>: two \<^verbatim>\<open>UPDATE\<close>s in one transaction, the first on every
  row, the second on the rows \<^verbatim>\<open>WHERE name = ?\<close>.
\<close>

definition set_active_profile :: "SettingsManager \<Rightarrow> string \<Rightarrow> SettingsManager" where
  "set_active_profile m name =
    (let deactivated = map (\<lambda>r. r\<lparr>p_active := False\<rparr>) (profiles m)
     in m\<lparr>profiles := map (\<lambda>r. if p_name r = name then r\<lparr>p_active := True\<rparr> else r) deactivated\<rparr>)"

text \<open>\<^verbatim>\<open>get_active_profile()\<close>: \<^verbatim>\<open>fetchone()\<close> of the rows \<^verbatim>\<open>WHERE active = TRUE\<close>.\<close>

definition get_active_profile :: "SettingsManager \<Rightarrow> string option" where
  "get_active_profile m =
    (case filter p_active (profiles m) of [] \<Rightarrow> None | r # _ \<Rightarrow> Some (p_name r))"

text \<open>The calls that change the store, and a history of them from the empty database.\<close>

datatype store_op =
    Set string pyval bool "string option" nat nat
  | Delete string
  | CreateProfile string "(string \<times> pyval) list" nat
  | SetActiveProfile string

fun apply_op :: "SettingsManager \<Rightarrow> store_op \<Rightarrow> SettingsManager" where
  "apply_op m (Set k v enc descr now entropy) = set_setting m k v enc descr now entropy"
| "apply_op m (Delete k) = snd (delete m k)"
| "apply_op m (CreateProfile name d now) = create_profile m name d now"
| "apply_op m (SetActiveProfile name) = set_active_profile m name"

definition run_ops :: "SettingsManager \<Rightarrow> store_op list \<Rightarrow> SettingsManager" where
  "run_ops m ops = foldl apply_op m ops"

definition active_names :: "SettingsManager \<Rightarrow> string list" where
  "active_names m = map p_name (filter p_active (profiles m))"

text \<open>
  What the primary keys and \<^verbatim>\<open>set_active_profile\<close> maintain: no two rows of a table share
  their key, and at most one profile row is active.
\<close>

definition store_inv :: "SettingsManager \<Rightarrow> bool" where
  "store_inv m =
    (distinct (map p_name (profiles m)) \<and> distinct (map s_key (settings m)) \<and>
     length (filter p_active (profiles m)) \<le> 1)"

text \<open>A row with its stored value blanked: two tables that differ only in the stored
  values have the same rows once every value is blanked.\<close>

definition hide_value :: "setting_row \<Rightarrow> setting_row" where
  "hide_value r = r\<lparr>s_value := []\<rparr>"

section \<open>The backup tool (\<^verbatim>\<open>github_backup.py\<close>)\<close>

text \<open>
  What the remote platform and the version-control client do in a run is an input of
  the model: every call that the code makes to them either returns or raises. The
  exceptions are the instances of Python's \<^verbatim>\<open>Exception\<close>: \<^verbatim>\<open>GitCommandError\<close> (GitPython),
  \<^verbatim>\<open>GithubException\<close> (PyGithub), and any other class, each with its message.
\<close>

datatype py_exception = GitCommandError string | GithubException string | OtherException string

fun exc_msg :: "py_exception \<Rightarrow> string" where
  "exc_msg (GitCommandError m) = m"
| "exc_msg (GithubException m) = m"
| "exc_msg (OtherException m) = m"

fun exc_name :: "py_exception \<Rightarrow> string" where
  "exc_name (GitCommandError m) = ''GitCommandError''"
| "exc_name (GithubException m) = ''GithubException''"
| "exc_name (OtherException m) = ''Exception''"

text \<open>
  A repository as \<^verbatim>\<open>get_repos\<close> yields it, with the outcome (\<open>None\<close>: no exception) of the
  four things the code does with it: \<^verbatim>\<open>Repo.clone_from\<close>; building the descriptive
  dictionary (\<^verbatim>\<open>repo.get_topics()\<close>) and writing \<^verbatim>\<open>metadata.json\<close>; the body of the
  \<^verbatim>\<open>try\<close> that fetches and writes the issues; the body of the one for the releases.
\<close>

record repo =
  name :: string
  full_name :: string
  clone_from :: "py_exception option"
  get_topics :: "py_exception option"
  get_issues :: "py_exception option"
  get_releases :: "py_exception option"

text \<open>The authenticated user (\<^verbatim>\<open>self.user\<close>) as the platform answers in this run.\<close>

record account =
  login :: string
  public_repos :: nat
  total_private_repos :: "nat option"
  get_repos :: "py_exception + repo list"
  get_keys :: "py_exception option"
  get_gists :: "py_exception + nat"

record GitHubBackup =
  token :: string
  backup_dir :: string
  user :: account

text \<open>The summary that \<^verbatim>\<open>run_backup\<close> writes to \<^verbatim>\<open>backup_summary.json\<close>.\<close>

record summary =
  backup_date :: string
  user_login :: string
  backup_location :: string
  repositories_count :: nat
  status :: string

datatype file_content =
    UserProfile
  | SshKeys
  | RepoMetadata
  | Issues
  | Releases
  | Gists nat
  | Summary summary

datatype level = INFO | WARNING | ERROR

text \<open>
  The state a run changes: \<^verbatim>\<open>self.backup_root\<close>, the directories made, the files written,
  the mirror clones made (destination and repository), the lines of \<^verbatim>\<open>backup.log\<close>, and the
  lines written to the log widget of the terminal screen.
\<close>

record world =
  backup_root :: string
  dirs :: "string list"
  files :: "(string \<times> file_content) list"
  mirrors :: "(string \<times> string) list"
  log :: "(level \<times> string) list"
  screen_log :: "string list"

text \<open>
  A procedure takes the state and returns the new state with either its result or the
  exception that leaves it.
\<close>

type_synonym 'a proc = "world \<Rightarrow> (py_exception + 'a) \<times> world"

definition ret :: "'a \<Rightarrow> 'a proc" where
  "ret x w = (Inr x, w)"

definition raise :: "py_exception \<Rightarrow> 'a proc" where
  "raise e w = (Inl e, w)"

definition bind :: "'a proc \<Rightarrow> ('a \<Rightarrow> 'b proc) \<Rightarrow> 'b proc" where
  "bind m f w = (case m w of (Inl e, w') \<Rightarrow> (Inl e, w') | (Inr x, w') \<Rightarrow> f x w')"

definition seq :: "unit proc \<Rightarrow> 'b proc \<Rightarrow> 'b proc" where
  "seq m k = bind m (\<lambda>_. k)"

text \<open>\<^verbatim>\<open>try: body except Exception as e: handler(e)\<close>.\<close>

definition try_except :: "'a proc \<Rightarrow> (py_exception \<Rightarrow> 'a proc) \<Rightarrow> 'a proc" where
  "try_except body handler w = (case body w of (Inl e, w') \<Rightarrow> handler e w' | (Inr x, w') \<Rightarrow> (Inr x, w'))"

definition logger :: "level \<Rightarrow> string \<Rightarrow> unit proc" where
  "logger lv msg w = (Inr (), w\<lparr>log := log w @ [(lv, msg)]\<rparr>)"

definition log_write :: "string \<Rightarrow> unit proc" where
  "log_write msg w = (Inr (), w\<lparr>screen_log := screen_log w @ [msg]\<rparr>)"

text \<open>\<^verbatim>\<open>Path.mkdir(exist_ok=True)\<close> and \<^verbatim>\<open>open(path, 'w')\<close> with \<^verbatim>\<open>json.dump\<close>.\<close>

definition mkdir :: "string \<Rightarrow> unit proc" where
  "mkdir d w = (Inr (), w\<lparr>dirs := (if d \<in> set (dirs w) then dirs w else dirs w @ [d])\<rparr>)"

definition write_file :: "string \<Rightarrow> file_content \<Rightarrow> unit proc" where
  "write_file path c w = (Inr (), w\<lparr>files := filter (\<lambda>f. fst f \<noteq> path) (files w) @ [(path, c)]\<rparr>)"

text \<open>A call to the platform or to the client: it returns, or raises what the run has for it.\<close>

definition call :: "py_exception option \<Rightarrow> unit proc" where
  "call outcome = (case outcome of None \<Rightarrow> ret () | Some e \<Rightarrow> raise e)"

definition path_join :: "string \<Rightarrow> string \<Rightarrow> string" where
  "path_join p q = p @ ''/'' @ q"

definition directories :: "string list" where
  "directories = [''repositories'', ''metadata'', ''issues_prs'', ''wikis'', ''releases'', ''gists'', ''settings'']"

text \<open>
  \<^verbatim>\<open>create_backup_structure\<close>; \<open>timestamp\<close> is \<^verbatim>\<open>datetime.now().strftime("%Y%m%d_%H%M%S")\<close>.
  \<^verbatim>\<open>mkdir(parents=True)\<close> makes the root with the first directory.
\<close>

fun mkdirs :: "string list \<Rightarrow> unit proc" where
  "mkdirs [] = ret ()"
| "mkdirs (d # ds) = seq (mkdir d) (mkdirs ds)"

definition root_of :: "GitHubBackup \<Rightarrow> string \<Rightarrow> string" where
  "root_of tool timestamp =
     path_join (backup_dir tool) (''github_backup_'' @ login (user tool) @ ''_'' @ timestamp)"

definition create_backup_structure :: "GitHubBackup \<Rightarrow> string \<Rightarrow> unit proc" where
  "create_backup_structure tool timestamp =
    (let root = root_of tool timestamp in
     seq (\<lambda>w. (Inr (), w\<lparr>backup_root := root\<rparr>))
    (seq (mkdirs (root # map (path_join root) directories))
         (logger INFO (''Created backup structure at '' @ root))))"

text \<open>\<^verbatim>\<open>backup_user_metadata\<close>: the profile, then the SSH keys inside their \<^verbatim>\<open>try\<close>.\<close>

definition backup_user_metadata :: "GitHubBackup \<Rightarrow> unit proc" where
  "backup_user_metadata tool =
    seq (logger INFO ''Starting user metadata backup'')
   (bind (\<lambda>w. (Inr (backup_root w), w)) (\<lambda>root.
    seq (write_file (path_join (path_join root ''metadata'') ''user_profile.json'') UserProfile)
   (seq (logger INFO (''Saved user profile to '' @ path_join (path_join root ''metadata'') ''user_profile.json''))
        (try_except
           (seq (call (get_keys (user tool)))
                (write_file (path_join (path_join root ''settings'') ''ssh_keys.json'') SshKeys))
           (\<lambda>e. case e of
                  GithubException m \<Rightarrow> logger WARNING (''Could not backup SSH keys: '' @ m)
                | _ \<Rightarrow> raise e)))))"

definition get_all_repositories :: "GitHubBackup \<Rightarrow> (repo list) proc" where
  "get_all_repositories tool = (case get_repos (user tool) of Inl e \<Rightarrow> raise e | Inr repos \<Rightarrow> ret repos)"

text \<open>
  \<^verbatim>\<open>clone_repository\<close>: the \<^verbatim>\<open>try\<close> holds the clone; the first handler takes
  \<^verbatim>\<open>GitCommandError\<close>, the second every other \<^verbatim>\<open>Exception\<close>; both return \<^verbatim>\<open>False\<close>.
\<close>

definition clone_repository :: "GitHubBackup \<Rightarrow> repo \<Rightarrow> string \<Rightarrow> bool proc" where
  "clone_repository tool repo repo_dir =
    try_except
      (seq (logger INFO (''Cloning '' @ full_name repo @ '' to '' @ repo_dir))
      (seq (logger INFO ''Repository details'')
      (seq (call (clone_from repo))
      (seq (\<lambda>w. (Inr (), w\<lparr>mirrors := mirrors w @ [(repo_dir, full_name repo)]\<rparr>))
      (seq (logger INFO (''Successfully cloned '' @ full_name repo))
           (ret True))))))
      (\<lambda>e. case e of
             GitCommandError m \<Rightarrow>
               seq (logger ERROR (''Git command failed for '' @ full_name repo @ '': '' @ m))
              (seq (logger ERROR (''Command output: '' @ m))
                   (ret False))
           | _ \<Rightarrow>
               seq (logger ERROR (''Unexpected error cloning '' @ full_name repo @ '': '' @ exc_name e @ '': '' @ exc_msg e))
                   (ret False))"

text \<open>
  \<^verbatim>\<open>backup_repository_metadata\<close>: the descriptive dictionary and \<^verbatim>\<open>metadata.json\<close> outside
  any \<^verbatim>\<open>try\<close>; the issues and the releases each in a \<^verbatim>\<open>try\<close> whose handler takes
  \<^verbatim>\<open>GithubException\<close> only.
\<close>

definition backup_repository_metadata :: "GitHubBackup \<Rightarrow> repo \<Rightarrow> string \<Rightarrow> unit proc" where
  "backup_repository_metadata tool repo repo_dir =
    seq (call (get_topics repo))
   (seq (write_file (path_join repo_dir ''metadata.json'') RepoMetadata)
   (seq (try_except
           (seq (call (get_issues repo)) (write_file (path_join repo_dir ''issues.json'') Issues))
           (\<lambda>e. case e of
                  GithubException m \<Rightarrow>
                    logger WARNING (''Could not backup issues for '' @ full_name repo @ '': '' @ m)
                | _ \<Rightarrow> raise e))
        (try_except
           (seq (call (get_releases repo)) (write_file (path_join repo_dir ''releases.json'') Releases))
           (\<lambda>e. case e of
                  GithubException m \<Rightarrow>
                    logger WARNING (''Could not backup releases for '' @ full_name repo @ '': '' @ m)
                | _ \<Rightarrow> raise e))))"

text \<open>
  The \<^verbatim>\<open>for repo in repos\<close> of \<^verbatim>\<open>backup_repositories\<close>, with the two counters
  \<^verbatim>\<open>clone_success\<close> and \<^verbatim>\<open>clone_failures\<close>.
\<close>

definition repo_dir_of :: "string \<Rightarrow> repo \<Rightarrow> string" where
  "repo_dir_of root repo = path_join (path_join root ''repositories'') (name repo)"

fun repos_loop :: "GitHubBackup \<Rightarrow> repo list \<Rightarrow> nat \<times> nat \<Rightarrow> (nat \<times> nat) proc" where
  "repos_loop tool [] counters = ret counters"
| "repos_loop tool (repo # rest) (clone_success, clone_failures) =
    seq (logger INFO (''Processing repository: '' @ full_name repo))
   (bind (\<lambda>w. (Inr (repo_dir_of (backup_root w) repo), w)) (\<lambda>repo_dir.
    seq (mkdir repo_dir)
   (bind (clone_repository tool repo (path_join repo_dir ''git'')) (\<lambda>cloned.
    bind (if cloned
          then seq (logger INFO (''Successfully cloned '' @ full_name repo))
                   (ret (clone_success + 1, clone_failures))
          else seq (logger ERROR (''Failed to clone '' @ full_name repo))
                   (ret (clone_success, clone_failures + 1))) (\<lambda>counters.
    seq (logger INFO (''Backing up metadata for '' @ full_name repo))
   (seq (backup_repository_metadata tool repo repo_dir)
        (repos_loop tool rest counters)))))))"

definition completed_line :: "nat \<times> nat \<Rightarrow> string" where
  "completed_line counters =
     ''Repository backup completed: '' @ show_nat (fst counters) @ '' successful, '' @
     show_nat (snd counters) @ '' failed''"

definition backup_repositories :: "GitHubBackup \<Rightarrow> unit proc" where
  "backup_repositories tool =
    bind (get_all_repositories tool) (\<lambda>repos.
    seq (logger INFO (''Starting backup of '' @ show_nat (length repos) @ '' repositories''))
   (bind (repos_loop tool repos (0, 0)) (\<lambda>counters.
         logger INFO (completed_line counters))))"

text \<open>\<^verbatim>\<open>backup_gists\<close>: everything inside a \<^verbatim>\<open>try\<close> whose handler takes \<^verbatim>\<open>GithubException\<close>.\<close>

definition backup_gists :: "GitHubBackup \<Rightarrow> unit proc" where
  "backup_gists tool =
    try_except
      (bind (case get_gists (user tool) of Inl e \<Rightarrow> raise e | Inr n \<Rightarrow> ret n) (\<lambda>n.
       bind (\<lambda>w. (Inr (backup_root w), w)) (\<lambda>root.
         write_file (path_join (path_join root ''gists'') ''gists.json'') (Gists n))))
      (\<lambda>e. case e of
             GithubException m \<Rightarrow> logger ERROR (''Failed to backup gists: '' @ m)
           | _ \<Rightarrow> raise e)"

text \<open>
  \<^verbatim>\<open>run_backup\<close>. \<open>timestamp\<close> and \<open>date\<close> are the two readings of \<^verbatim>\<open>datetime.now()\<close>. The
  handler logs and raises again.
\<close>

definition make_summary :: "GitHubBackup \<Rightarrow> string \<Rightarrow> string \<Rightarrow> summary" where
  "make_summary tool date root =
    \<lparr>backup_date = date, user_login = login (user tool), backup_location = root,
     repositories_count =
       public_repos (user tool) + (case total_private_repos (user tool) of None \<Rightarrow> 0 | Some n \<Rightarrow> n),
     status = ''completed''\<rparr>"

definition run_backup :: "GitHubBackup \<Rightarrow> string \<Rightarrow> string \<Rightarrow> unit proc" where
  "run_backup tool timestamp date =
    try_except
      (seq (create_backup_structure tool timestamp)
      (seq (backup_user_metadata tool)
      (seq (backup_repositories tool)
      (seq (backup_gists tool)
           (bind (\<lambda>w. (Inr (backup_root w), w)) (\<lambda>root.
              write_file (path_join root ''backup_summary.json'') (Summary (make_summary tool date root))))))))
      (\<lambda>e. seq (logger ERROR (''Backup failed: '' @ exc_msg e)) (raise e))"

section \<open>The selective backup of the terminal screen (\<^verbatim>\<open>tui_app.py\<close>)\<close>

text \<open>
  \<^verbatim>\<open>SelectiveBackupProgressScreen._backup_selected_repositories\<close>: the enumerated
  repositories whose name is in \<^verbatim>\<open>self.selected_repos\<close>, then the same steps per repository
  as \<^verbatim>\<open>backup_repositories\<close>, reported to the log widget.
\<close>

fun selected_loop :: "GitHubBackup \<Rightarrow> repo list \<Rightarrow> nat \<times> nat \<Rightarrow> (nat \<times> nat) proc" where
  "selected_loop tool [] counters = ret counters"
| "selected_loop tool (repo # rest) (clone_success, clone_failures) =
    seq (log_write (''Processing repository: '' @ full_name repo))
   (bind (\<lambda>w. (Inr (repo_dir_of (backup_root w) repo), w)) (\<lambda>repo_dir.
    seq (mkdir repo_dir)
   (bind (clone_repository tool repo (path_join repo_dir ''git'')) (\<lambda>cloned.
    bind (if cloned
          then seq (log_write (''Cloned '' @ full_name repo))
                   (ret (clone_success + 1, clone_failures))
          else seq (log_write (''Failed to clone '' @ full_name repo))
                   (ret (clone_success, clone_failures + 1))) (\<lambda>counters.
    seq (log_write (''Backing up metadata for '' @ full_name repo))
   (seq (backup_repository_metadata tool repo repo_dir)
        (selected_loop tool rest counters)))))))"

definition backup_selected_repositories :: "GitHubBackup \<Rightarrow> string set \<Rightarrow> unit proc" where
  "backup_selected_repositories tool selected_repos =
    bind (get_all_repositories tool) (\<lambda>all_repos.
    bind (ret (filter (\<lambda>repo. name repo \<in> selected_repos) all_repos)) (\<lambda>selected_repo_objects.
    bind (selected_loop tool selected_repo_objects (0, 0)) (\<lambda>counters.
         log_write (completed_line counters))))"

text \<open>
  \<^verbatim>\<open>_run_selective_backup_sync\<close>: structure, user metadata, the selected repositories; the
  gists are skipped and no summary is written. The handler reports and raises again.
\<close>

definition run_selective_backup_sync :: "GitHubBackup \<Rightarrow> string set \<Rightarrow> string \<Rightarrow> unit proc" where
  "run_selective_backup_sync tool selected_repos timestamp =
    try_except
      (seq (log_write ''Creating backup directory structure...'')
      (seq (create_backup_structure tool timestamp)
      (seq (log_write ''Backing up user information...'')
      (seq (backup_user_metadata tool)
      (seq (log_write ''Backing up selected repositories...'')
      (seq (backup_selected_repositories tool selected_repos)
      (seq (log_write ''Skipping gists in selective backup...'')
           (log_write ''Selective backup completed successfully!''))))))))
      (\<lambda>e. seq (log_write (''Selective backup failed: '' @ exc_msg e)) (raise e))"

definition fresh :: world where
  "fresh = \<lparr>backup_root = [], dirs = [], files = [], mirrors = [], log = [], screen_log = []\<rparr>"

text \<open>
  Predicates of the statements below. A clone succeeds when \<^verbatim>\<open>Repo.clone_from\<close> raises
  nothing. An outcome is \<open>handled\<close> when it is no exception or a \<^verbatim>\<open>GithubException\<close>, the
  only class that the handlers of the metadata, the keys and the gists take.
\<close>

definition clone_ok :: "repo \<Rightarrow> bool" where
  "clone_ok r = (clone_from r = None)"

definition handled :: "py_exception option \<Rightarrow> bool" where
  "handled outcome = (case outcome of None \<Rightarrow> True | Some (GithubException m) \<Rightarrow> True | Some _ \<Rightarrow> False)"

definition metadata_handled :: "repo \<Rightarrow> bool" where
  "metadata_handled r = (get_topics r = None \<and> handled (get_issues r) \<and> handled (get_releases r))"

definition gists_handled :: "py_exception + nat \<Rightarrow> bool" where
  "gists_handled outcome = (case outcome of Inr n \<Rightarrow> True | Inl (GithubException m) \<Rightarrow> True | Inl _ \<Rightarrow> False)"

definition repo_content :: "file_content \<Rightarrow> bool" where
  "repo_content c = (c = RepoMetadata \<or> c = Issues \<or> c = Releases)"

definition warning_for :: "string \<Rightarrow> repo \<Rightarrow> py_exception option \<Rightarrow> (level \<times> string) list" where
  "warning_for what r outcome =
    (case outcome of
       Some (GithubException m) \<Rightarrow>
         [(WARNING, ''Could not backup '' @ what @ '' for '' @ full_name r @ '': '' @ m)]
     | _ \<Rightarrow> [])"

definition account_content :: "file_content \<Rightarrow> bool" where
  "account_content c = (c = UserProfile \<or> c = SshKeys)"

text \<open>
  Inputs for the examples: a repository for which every call succeeds, an account that
  enumerates the given repositories and reports \<open>n\<close> public repositories, and a tool for it.
\<close>

definition repo_ok :: "string \<Rightarrow> repo" where
  "repo_ok n =
    \<lparr>name = n, full_name = ''octo/'' @ n, clone_from = None, get_topics = None,
     get_issues = None, get_releases = None\<rparr>"

definition account_of :: "repo list \<Rightarrow> nat \<Rightarrow> account" where
  "account_of rs n =
    \<lparr>login = ''octo'', public_repos = n, total_private_repos = None, get_repos = Inr rs,
     get_keys = None, get_gists = Inr 0\<rparr>"

definition tool_of :: "repo list \<Rightarrow> nat \<Rightarrow> GitHubBackup" where
  "tool_of rs n = \<lparr>token = ''secret'', backup_dir = ''b'', user = account_of rs n\<rparr>"

text \<open>
  The state after one round of the loops, when the repository's metadata is handled: the
  steps of the loop body in their order.
\<close>

definition after_repo :: "GitHubBackup \<Rightarrow> repo \<Rightarrow> nat \<times> nat \<Rightarrow> world \<Rightarrow> world" where
  "after_repo tool r c w = 
     (let w1 = snd (logger INFO (''Processing repository: '' @ full_name r) w);
          rd = repo_dir_of (backup_root w) r;
          w2 = snd (mkdir rd w1);
          w3 = snd (clone_repository tool r (path_join rd ''git'') w2);
          w4 = snd (logger (if clone_from r = None then INFO else ERROR)
                 ((if clone_from r = None then ''Successfully cloned '' else ''Failed to clone '') @ full_name r) w3);
          w5 = snd (logger INFO (''Backing up metadata for '' @ full_name r) w4)
      in snd (backup_repository_metadata tool r rd w5))"

definition after_selected :: "GitHubBackup \<Rightarrow> repo \<Rightarrow> world \<Rightarrow> world" where
  "after_selected tool r w = 
     (let w1 = snd (log_write (''Processing repository: '' @ full_name r) w);
          rd = repo_dir_of (backup_root w) r;
          w2 = snd (mkdir rd w1);
          w3 = snd (clone_repository tool r (path_join rd ''git'') w2);
          w4 = snd (log_write ((if clone_from r = None then ''Cloned '' else ''Failed to clone '') @ full_name r) w3);
          w5 = snd (log_write (''Backing up metadata for '' @ full_name r) w4)
      in snd (backup_repository_metadata tool r rd w5))"

text \<open>
  For the round trip of the codec: what may follow a value in the text that \<open>json_dumps\<close>
  writes (the end, or a character that continues no number), and the values whose
  dictionaries have no key twice, as every Python \<^verbatim>\<open>dict\<close> is.
\<close>

definition ok_follow :: "string \<Rightarrow> bool" where
  "ok_follow r =
    (case r of
       [] \<Rightarrow> True
     | c # _ \<Rightarrow> c = CHR '','' \<or> c = CHR '']'' \<or> c = CHR ''}'')"

fun wf_pyval :: "pyval \<Rightarrow> bool" where
  "wf_pyval (PList xs) = list_all wf_pyval xs"
| "wf_pyval (PDict kvs) = (distinct (map fst kvs) \<and> list_all (\<lambda>kv. wf_pyval (snd kv)) kvs)"
| "wf_pyval _ = True"

(*PROPERTIES*)
section \<open>Properties of the settings store\<close>

subsection \<open>Invariant of the tables\<close>

lemma filter_active_deactivated:
  "filter p_active
     (map (\<lambda>r. if p_name r = n then r\<lparr>p_active := True\<rparr> else r) (map (\<lambda>r. r\<lparr>p_active := False\<rparr>) xs))
   = map (\<lambda>r. r\<lparr>p_active := True\<rparr>) (filter (\<lambda>r. p_name r = n) xs)"
  by (induction xs) auto

lemma names_set_active: "map p_name (profiles (set_active_profile m n)) = map p_name (profiles m)"
  by (simp add: set_active_profile_def Let_def comp_def)

lemma settings_set_active: "settings (set_active_profile m n) = settings m"
  by (simp add: set_active_profile_def Let_def)

lemma active_after_set:
  "filter p_active (profiles (set_active_profile m n))
   = map (\<lambda>r. r\<lparr>p_active := True\<rparr>) (filter (\<lambda>r. p_name r = n) (profiles m))"
  by (simp add: set_active_profile_def Let_def filter_active_deactivated del: map_map)

lemma filter_key_distinct:
  "distinct (map f xs) \<Longrightarrow> length (filter (\<lambda>r. f r = k) xs) \<le> Suc 0"
  by (induction xs) (auto simp: filter_empty_conv image_iff)

lemma filter_key_single:
  "distinct (map f xs) \<Longrightarrow> k \<in> set (map f xs) \<Longrightarrow> \<exists>r. filter (\<lambda>r. f r = k) xs = [r] \<and> f r = k"
proof (induction xs)
  case Nil
  then show ?case by simp
next
  case (Cons x xs)
  show ?case
  proof (cases "f x = k")
    case True
    with Cons.prems have "filter (\<lambda>r. f r = k) xs = []"
      by (auto simp: filter_empty_conv image_iff)
    with True show ?thesis by simp
  next
    case False
    with Cons show ?thesis by auto
  qed
qed

lemma distinct_insert_or_replace:
  "distinct (map f xs) \<Longrightarrow> distinct (map f (insert_or_replace f row xs))"
  by (auto simp: insert_or_replace_def distinct_map_filter)

lemma store_inv_apply: "store_inv m \<Longrightarrow> store_inv (apply_op m op)"
proof (cases op)
  case (Set k v enc descr now entropy)
  assume "store_inv m"
  then show ?thesis using Set
    by (simp add: store_inv_def set_setting_def Let_def distinct_insert_or_replace)
next
  case (Delete k)
  assume "store_inv m"
  then show ?thesis using Delete
    by (simp add: store_inv_def delete_def distinct_map_filter)
next
  case (CreateProfile name d now)
  assume inv: "store_inv m"
  then have "length (filter p_active (filter (\<lambda>r. p_name r \<noteq> name) (profiles m))) \<le> 1"
    unfolding store_inv_def
    by (metis (no_types, lifting) filter_filter le_trans length_filter_le filter_cong)
  with inv show ?thesis using CreateProfile
    by (simp add: store_inv_def create_profile_def distinct_insert_or_replace)
       (simp add: insert_or_replace_def)
next
  case (SetActiveProfile name)
  assume "store_inv m"
  then show ?thesis using SetActiveProfile
    by (simp add: store_inv_def names_set_active active_after_set filter_key_distinct
        settings_set_active)
qed

lemma store_inv_run: "store_inv m \<Longrightarrow> store_inv (run_ops m ops)"
  unfolding run_ops_def by (induction ops arbitrary: m) (auto intro: store_inv_apply)

lemma store_inv_init: "store_inv (init_database e d)"
  by (simp add: store_inv_def init_database_def)

lemma store_inv_reachable: "store_inv (run_ops (init_database e d) ops)"
  by (rule store_inv_run) (rule store_inv_init)

subsection \<open>Profiles\<close>

text \<open>
  Claim C4. After any history of calls on a fresh database at most one profile is active,
  and \<^verbatim>\<open>set_active_profile(B)\<close> for a stored profile \<open>B\<close> leaves \<open>B\<close> as the one active
  profile, whichever profile was active before; \<^verbatim>\<open>get_active_profile()\<close> then returns \<open>B\<close>.
  Both \<^verbatim>\<open>UPDATE\<close>s run in one transaction, which the model takes as one step.
\<close>

theorem at_most_one_active_profile:
  "length (active_names (run_ops (init_database e d) ops)) \<le> 1 \<and>
   (B \<in> set (map p_name (profiles (run_ops (init_database e d) ops))) \<longrightarrow>
      active_names (set_active_profile (run_ops (init_database e d) ops) B) = [B] \<and>
      get_active_profile (set_active_profile (run_ops (init_database e d) ops) B) = Some B)"
proof -
  define m where "m = run_ops (init_database e d) ops"
  have inv: "store_inv m"
    unfolding m_def by (rule store_inv_reachable)
  have one: "length (active_names m) \<le> 1"
    using inv by (simp add: store_inv_def active_names_def)
  have act: "active_names (set_active_profile m B) = [B] \<and>
             get_active_profile (set_active_profile m B) = Some B"
    if "B \<in> set (map p_name (profiles m))"
  proof -
    from inv have "distinct (map p_name (profiles m))" by (simp add: store_inv_def)
    from filter_key_single [OF this that]
    obtain r where r: "filter (\<lambda>r. p_name r = B) (profiles m) = [r]" "p_name r = B" by blast
    then show ?thesis
      by (simp add: active_names_def get_active_profile_def active_after_set)
  qed
  from one act show ?thesis unfolding m_def by blast
qed

theorem at_most_one_active_profile_witness:
  "get_active_profile
     (run_ops (init_database (\<lambda>n s. s) Some)
        [CreateProfile ''A'' [] 1, CreateProfile ''B'' [] 2, SetActiveProfile ''A'']) = Some ''A'' \<and>
   ''B'' \<in> set (map p_name (profiles
     (run_ops (init_database (\<lambda>n s. s) Some)
        [CreateProfile ''A'' [] 1, CreateProfile ''B'' [] 2, SetActiveProfile ''A'']))) \<and>
   active_names (set_active_profile
     (run_ops (init_database (\<lambda>n s. s) Some)
        [CreateProfile ''A'' [] 1, CreateProfile ''B'' [] 2, SetActiveProfile ''A'']) ''B'') = [''B'']"
proof -
  let ?m = "run_ops (init_database (\<lambda>n s. s) Some)
        [CreateProfile ''A'' [] 1, CreateProfile ''B'' [] 2, SetActiveProfile ''A'']"
  have a: "get_active_profile ?m = Some ''A''"
    by (simp add: run_ops_def init_database_def create_profile_def insert_or_replace_def
        set_active_profile_def get_active_profile_def Let_def)
  have h: "''B'' \<in> set (map p_name (profiles ?m))"
    by (simp add: run_ops_def init_database_def create_profile_def insert_or_replace_def
        set_active_profile_def Let_def)
  from at_most_one_active_profile [of "\<lambda>n s. s" Some
      "[CreateProfile ''A'' [] 1, CreateProfile ''B'' [] 2, SetActiveProfile ''A'']" "''B''"] h
  have "active_names (set_active_profile ?m ''B'') = [''B'']" by blast
  with a h show ?thesis by blast
qed

text \<open>
  Claim C9. If profile \<open>n\<close> is the active one, \<^verbatim>\<open>create_profile(n, settings_map)\<close> replaces
  its row by one whose \<^verbatim>\<open>active\<close> is the default \<^verbatim>\<open>FALSE\<close>: afterwards no profile is active
  and \<^verbatim>\<open>get_active_profile()\<close> returns \<^verbatim>\<open>None\<close>.
\<close>

theorem create_profile_drops_active:
  assumes "get_active_profile (run_ops (init_database e d) ops) = Some n"
  shows "active_names (create_profile (run_ops (init_database e d) ops) n sd now) = [] \<and>
         get_active_profile (create_profile (run_ops (init_database e d) ops) n sd now) = None"
proof -
  define m where "m = run_ops (init_database e d) ops"
  have inv: "store_inv m"
    unfolding m_def by (rule store_inv_reachable)
  then have le: "length (filter p_active (profiles m)) \<le> 1" by (simp add: store_inv_def)
  from assms obtain r where r: "filter p_active (profiles m) = [r]" "p_name r = n"
    using le unfolding m_def [symmetric] get_active_profile_def
    by (cases "filter p_active (profiles m)") (auto split: list.splits)
  have "filter (\<lambda>x. p_name x \<noteq> n) (filter p_active (profiles m)) = []"
    using r by simp
  then have "filter p_active (filter (\<lambda>x. p_name x \<noteq> n) (profiles m)) = []"
    by (simp add: conj_commute)
  then have "filter p_active (profiles (create_profile m n sd now)) = []"
    by (simp add: create_profile_def insert_or_replace_def)
  then show ?thesis
    unfolding m_def [symmetric] by (simp add: active_names_def get_active_profile_def)
qed

theorem create_profile_drops_active_witness:
  "get_active_profile
     (run_ops (init_database (\<lambda>n s. s) Some)
        [CreateProfile ''work'' [] 1, SetActiveProfile ''work'']) = Some ''work'' \<and>
   get_active_profile (create_profile
     (run_ops (init_database (\<lambda>n s. s) Some)
        [CreateProfile ''work'' [] 1, SetActiveProfile ''work''])
     ''work'' [(''parallel_workers'', PInt 8)] 2) = None"
proof -
  let ?m = "run_ops (init_database (\<lambda>n s. s) Some)
        [CreateProfile ''work'' [] 1, SetActiveProfile ''work'']"
  have h: "get_active_profile ?m = Some ''work''"
    by (simp add: run_ops_def init_database_def create_profile_def insert_or_replace_def
        set_active_profile_def get_active_profile_def Let_def)
  from create_profile_drops_active [OF h] h show ?thesis by blast
qed

subsection \<open>Listing\<close>

lemma insort_key_map_same:
  "(\<And>x. f (g x) = f x) \<Longrightarrow> insort_key f (g x) (map g ys) = map g (insort_key f x ys)"
  by (induction ys) auto

lemma sort_key_map_same:
  "(\<And>x. f (g x) = f x) \<Longrightarrow> sort_key f (map g xs) = map g (sort_key f xs)"
  by (induction xs) (simp_all add: insort_key_map_same)

lemma map_insort_key_eq: "map f (insort_key f x ys) = insort (f x) (map f ys)"
  by (induction ys) auto

lemma map_sort_key_eq: "map f (sort_key f xs) = sort (map f xs)"
  by (induction xs) (simp_all add: map_insort_key_eq)

lemma info_of_hide: "info_of (hide_value r) = info_of r" "s_key (hide_value r) = s_key r"
  by (simp_all add: info_of_def hide_value_def)

lemma list_settings_hide:
  "list_settings m =
     map (\<lambda>r. (s_key r, info_of r)) (sort_key s_key (map hide_value (settings m)))"
  by (simp add: list_settings_def sort_key_map_same info_of_hide comp_def)

text \<open>
  Claim C8. \<^verbatim>\<open>list_settings()\<close> has one entry per stored key, in key order; the entry holds
  \<^verbatim>\<open>encrypted\<close>, \<^verbatim>\<open>description\<close>, \<^verbatim>\<open>created_at\<close> and \<^verbatim>\<open>updated_at\<close> of the row (the type
  \<open>setting_info\<close> has no other field); and two stores whose rows differ only in the stored
  values give the same listing.
\<close>

theorem list_settings_hides_values:
  "map fst (list_settings m) = sort (map s_key (settings m)) \<and>
   map snd (list_settings m) = map info_of (sort_key s_key (settings m)) \<and>
   (map hide_value (settings m) = map hide_value (settings m') \<longrightarrow>
      list_settings m = list_settings m')"
proof (intro conjI impI)
  show "map fst (list_settings m) = sort (map s_key (settings m))"
    by (simp add: list_settings_def comp_def map_sort_key_eq)
  show "map snd (list_settings m) = map info_of (sort_key s_key (settings m))"
    by (simp add: list_settings_def comp_def)
  assume "map hide_value (settings m) = map hide_value (settings m')"
  then show "list_settings m = list_settings m'"
    by (simp add: list_settings_hide)
qed

theorem list_settings_hides_values_witness:
  "map hide_value (settings (set_setting (init_database (\<lambda>n s. rev s) (\<lambda>t. Some (rev t)))
        ''github_token'' (PStr ''secret-one'') True (Some ''token'') 7 0)) =
   map hide_value (settings (set_setting (init_database (\<lambda>n s. rev s) (\<lambda>t. Some (rev t)))
        ''github_token'' (PStr ''other-secret'') True (Some ''token'') 7 0)) \<and>
   list_settings (set_setting (init_database (\<lambda>n s. rev s) (\<lambda>t. Some (rev t)))
        ''github_token'' (PStr ''secret-one'') True (Some ''token'') 7 0) =
   list_settings (set_setting (init_database (\<lambda>n s. rev s) (\<lambda>t. Some (rev t)))
        ''github_token'' (PStr ''other-secret'') True (Some ''token'') 7 0)"
proof -
  let ?a = "set_setting (init_database (\<lambda>n s. rev s) (\<lambda>t. Some (rev t)))
        ''github_token'' (PStr ''secret-one'') True (Some ''token'') 7 0"
  let ?b = "set_setting (init_database (\<lambda>n s. rev s) (\<lambda>t. Some (rev t)))
        ''github_token'' (PStr ''other-secret'') True (Some ''token'') 7 0"
  have h: "map hide_value (settings ?a) = map hide_value (settings ?b)"
    by (simp add: set_setting_def init_database_def insert_or_replace_def hide_value_def Let_def)
  from list_settings_hides_values [of ?a ?b] h have "list_settings ?a = list_settings ?b"
    by blast
  with h show ?thesis by blast
qed

subsection \<open>Time stamps of a setting\<close>

lemma set_setting_timestamps:
  "map (\<lambda>r. (s_created_at r, s_updated_at r))
     (filter (\<lambda>r. s_key r = k) (settings (set_setting m k v enc descr now entropy))) = [(now, now)]"
  by (simp add: set_setting_def Let_def insert_or_replace_def)

text \<open>
  Claim C3. Overwriting a key should keep the row's \<^verbatim>\<open>created_at\<close> and refresh its
  \<^verbatim>\<open>updated_at\<close>. In the code the row is replaced, and \<^verbatim>\<open>created_at\<close> takes its default
  again: a key written at time 1 and overwritten at time 2 has \<^verbatim>\<open>created_at = 2\<close>.
\<close>

theorem set_setting_resets_created_at:
  "map (\<lambda>r. (s_key r, s_created_at r, s_updated_at r))
     (settings (set_setting (init_database (\<lambda>n s. s) Some) ''k'' (PStr ''a'') False None 1 0)) =
     [(''k'', 1, 1)] \<and>
   map (\<lambda>r. (s_key r, s_created_at r, s_updated_at r))
     (settings (set_setting
        (set_setting (init_database (\<lambda>n s. s) Some) ''k'' (PStr ''a'') False None 1 0)
        ''k'' (PStr ''b'') False None 2 0)) =
     [(''k'', 2, 2)]"
  by (simp add: set_setting_def init_database_def insert_or_replace_def Let_def)

section \<open>Properties of the backup\<close>

lemmas proc_defs = ret_def raise_def bind_def seq_def try_except_def logger_def log_write_def
  mkdir_def write_file_def call_def

lemma bind_alt:
  "bind m f w = (case fst (m w) of Inl e \<Rightarrow> (Inl e, snd (m w)) | Inr x \<Rightarrow> f x (snd (m w)))"
  by (simp add: bind_def split: prod.splits sum.splits)

lemma seq_alt:
  "seq m k w = (case fst (m w) of Inl e \<Rightarrow> (Inl e, snd (m w)) | Inr x \<Rightarrow> k (snd (m w)))"
  by (simp add: seq_def bind_alt)

lemma try_except_alt:
  "try_except m h w = (case fst (m w) of Inl e \<Rightarrow> h e (snd (m w)) | Inr x \<Rightarrow> (Inr x, snd (m w)))"
  by (simp add: try_except_def split: prod.splits sum.splits)

lemma logger_simps [simp]:
  "fst (logger lv msg w) = Inr ()"
  "backup_root (snd (logger lv msg w)) = backup_root w"
  "dirs (snd (logger lv msg w)) = dirs w"
  "files (snd (logger lv msg w)) = files w"
  "mirrors (snd (logger lv msg w)) = mirrors w"
  "screen_log (snd (logger lv msg w)) = screen_log w"
  "log (snd (logger lv msg w)) = log w @ [(lv, msg)]"
  by (simp_all add: logger_def)

lemma log_write_simps [simp]:
  "fst (log_write msg w) = Inr ()"
  "backup_root (snd (log_write msg w)) = backup_root w"
  "dirs (snd (log_write msg w)) = dirs w"
  "files (snd (log_write msg w)) = files w"
  "mirrors (snd (log_write msg w)) = mirrors w"
  "log (snd (log_write msg w)) = log w"
  "screen_log (snd (log_write msg w)) = screen_log w @ [msg]"
  by (simp_all add: log_write_def)

lemma mkdir_simps [simp]:
  "fst (mkdir d w) = Inr ()"
  "backup_root (snd (mkdir d w)) = backup_root w"
  "set (dirs (snd (mkdir d w))) = insert d (set (dirs w))"
  "files (snd (mkdir d w)) = files w"
  "mirrors (snd (mkdir d w)) = mirrors w"
  "screen_log (snd (mkdir d w)) = screen_log w"
  "log (snd (mkdir d w)) = log w"
  by (auto simp: mkdir_def)

lemma write_file_simps [simp]:
  "fst (write_file p c w) = Inr ()"
  "backup_root (snd (write_file p c w)) = backup_root w"
  "dirs (snd (write_file p c w)) = dirs w"
  "files (snd (write_file p c w)) = filter (\<lambda>f. fst f \<noteq> p) (files w) @ [(p, c)]"
  "mirrors (snd (write_file p c w)) = mirrors w"
  "screen_log (snd (write_file p c w)) = screen_log w"
  "log (snd (write_file p c w)) = log w"
  by (simp_all add: write_file_def)

lemma ret_simps [simp]: "fst (ret x w) = Inr x" "snd (ret x w) = w"
  by (simp_all add: ret_def)

lemma raise_simps [simp]: "fst (raise e w) = Inl e" "snd (raise e w) = w"
  by (simp_all add: raise_def)

lemma clone_repository_simps [simp]:
  "fst (clone_repository tool repo d w) = Inr (clone_from repo = None)"
  "backup_root (snd (clone_repository tool repo d w)) = backup_root w"
  "dirs (snd (clone_repository tool repo d w)) = dirs w"
  "files (snd (clone_repository tool repo d w)) = files w"
  "screen_log (snd (clone_repository tool repo d w)) = screen_log w"
  "mirrors (snd (clone_repository tool repo d w)) =
     mirrors w @ (if clone_from repo = None then [(d, full_name repo)] else [])"
  by (cases "clone_from repo"; simp add: clone_repository_def proc_defs split: py_exception.splits)+

lemma clone_repository_log: "set (log w) \<subseteq> set (log (snd (clone_repository tool repo d w)))"
  by (cases "clone_from repo") (auto simp: clone_repository_def proc_defs split: py_exception.splits)

lemma metadata_simps:
  assumes "metadata_handled repo"
  shows "fst (backup_repository_metadata tool repo d w) = Inr ()"
    "backup_root (snd (backup_repository_metadata tool repo d w)) = backup_root w"
    "dirs (snd (backup_repository_metadata tool repo d w)) = dirs w"
    "mirrors (snd (backup_repository_metadata tool repo d w)) = mirrors w"
    "screen_log (snd (backup_repository_metadata tool repo d w)) = screen_log w"
    "log (snd (backup_repository_metadata tool repo d w)) =
       log w @ warning_for ''issues'' repo (get_issues repo) @ warning_for ''releases'' repo (get_releases repo)"
    "files (snd (backup_repository_metadata tool repo d w)) =
          filter (\<lambda>f. fst f \<notin> {path_join d ''metadata.json''} \<union>
                 (if get_issues repo = None then {path_join d ''issues.json''} else {}) \<union>
                 (if get_releases repo = None then {path_join d ''releases.json''} else {})) (files w) @
           [(path_join d ''metadata.json'', RepoMetadata)] @
           (if get_issues repo = None then [(path_join d ''issues.json'', Issues)] else []) @
           (if get_releases repo = None then [(path_join d ''releases.json'', Releases)] else [])"
  using assms
  by (auto simp: metadata_handled_def handled_def backup_repository_metadata_def proc_defs
      warning_for_def path_join_def
      split: py_exception.splits option.splits)

lemma metadata_files:
  assumes "metadata_handled repo"
  shows "\<forall>x\<in>set (files (snd (backup_repository_metadata tool repo d w))). x \<in> set (files w) \<or> repo_content (snd x)"
  unfolding metadata_simps(7) [OF assms] by (auto simp: repo_content_def)

lemma repos_loop_step:
  assumes "metadata_handled r"
  shows "repos_loop tool (r # rs) (s, f) w =
     repos_loop tool rs (if clone_from r = None then (s + 1, f) else (s, f + 1)) (after_repo tool r (s, f) w)"
  using assms
  by (simp add: bind_alt seq_alt metadata_simps after_repo_def Let_def)

lemma after_repo_simps:
  assumes "metadata_handled r"
  shows "backup_root (after_repo tool r c w) = backup_root w"
    "screen_log (after_repo tool r c w) = screen_log w"
    "set (log w) \<subseteq> set (log (after_repo tool r c w))"
    "set (dirs (after_repo tool r c w)) = insert (repo_dir_of (backup_root w) r) (set (dirs w))"
    "\<forall>x\<in>set (files (after_repo tool r c w)). x \<in> set (files w) \<or> repo_content (snd x)"
    "mirrors (after_repo tool r c w) = mirrors w @
       (if clone_from r = None then [(path_join (repo_dir_of (backup_root w) r) ''git'', full_name r)] else [])"
proof -
  show "backup_root (after_repo tool r c w) = backup_root w"
    by (simp add: after_repo_def Let_def metadata_simps [OF assms])
  show "screen_log (after_repo tool r c w) = screen_log w"
    by (simp add: after_repo_def Let_def metadata_simps [OF assms])
  show "set (dirs (after_repo tool r c w)) = insert (repo_dir_of (backup_root w) r) (set (dirs w))"
    by (simp add: after_repo_def Let_def metadata_simps [OF assms])
  show "mirrors (after_repo tool r c w) = mirrors w @
       (if clone_from r = None then [(path_join (repo_dir_of (backup_root w) r) ''git'', full_name r)] else [])"
    by (simp add: after_repo_def Let_def metadata_simps [OF assms])
  define w2 where "w2 = snd (mkdir (repo_dir_of (backup_root w) r)
      (snd (logger INFO (''Processing repository: '' @ full_name r) w)))"
  define w3 where "w3 = snd (clone_repository tool r (path_join (repo_dir_of (backup_root w) r) ''git'') w2)"
  have a: "set (log w) \<subseteq> set (log w2)" by (auto simp: w2_def)
  have b: "set (log w2) \<subseteq> set (log w3)" unfolding w3_def by (rule clone_repository_log)
  have "\<exists>l. log (after_repo tool r c w) = log w3 @ l"
    by (simp add: after_repo_def Let_def metadata_simps(6) [OF assms] w3_def w2_def)
  with a b show "set (log w) \<subseteq> set (log (after_repo tool r c w))" by auto
  show "\<forall>x\<in>set (files (after_repo tool r c w)). x \<in> set (files w) \<or> repo_content (snd x)"
    using metadata_files [OF assms]
    by (simp add: after_repo_def Let_def) fastforce
qed

lemma repos_loop_result:
  assumes "\<forall>r\<in>set rs. metadata_handled r"
  shows "fst (repos_loop tool rs (s, f) w) =
            Inr (s + length (filter clone_ok rs), f + length (filter (\<lambda>r. \<not> clone_ok r) rs)) \<and>
        backup_root (snd (repos_loop tool rs (s, f) w)) = backup_root w \<and>
        screen_log (snd (repos_loop tool rs (s, f) w)) = screen_log w \<and>
        set (log w) \<subseteq> set (log (snd (repos_loop tool rs (s, f) w))) \<and>
        set (dirs (snd (repos_loop tool rs (s, f) w))) = set (dirs w) \<union> repo_dir_of (backup_root w) ` set rs \<and>
        (\<forall>x\<in>set (files (snd (repos_loop tool rs (s, f) w))). x \<in> set (files w) \<or> repo_content (snd x)) \<and>
        mirrors (snd (repos_loop tool rs (s, f) w)) = mirrors w @
          map (\<lambda>r. (path_join (repo_dir_of (backup_root w) r) ''git'', full_name r)) (filter clone_ok rs)"
  using assms
proof (induction rs arbitrary: s f w)
  case Nil
  then show ?case by simp
next
  case (Cons r rs)
  from Cons.prems have mh: "metadata_handled r" and rest: "\<forall>r\<in>set rs. metadata_handled r"
    by simp_all
  define w' where "w' = after_repo tool r (s, f) w"
  define s' where "s' = (if clone_from r = None then s + 1 else s)"
  define f' where "f' = (if clone_from r = None then f else f + 1)"
  note ar = after_repo_simps [OF mh, where tool = tool and c = "(s, f)" and w = w, folded w'_def]
  have step: "repos_loop tool (r # rs) (s, f) w = repos_loop tool rs (s', f') w'"
    using repos_loop_step [OF mh, where tool = tool and rs = rs and s = s and f = f and w = w]
    by (simp add: s'_def f'_def w'_def)
  note IH = Cons.IH [OF rest, where s = s' and f = f' and w = w']
  have cnt: "s' + length (filter clone_ok rs) = s + length (filter clone_ok (r # rs))"
    "f' + length (filter (\<lambda>r. \<not> clone_ok r) rs) = f + length (filter (\<lambda>r. \<not> clone_ok r) (r # rs))"
    by (simp_all add: s'_def f'_def clone_ok_def)
  show ?case
    unfolding step
  proof (intro conjI)
    show "fst (repos_loop tool rs (s', f') w') =
      Inr (s + length (filter clone_ok (r # rs)), f + length (filter (\<lambda>r. \<not> clone_ok r) (r # rs)))"
      using IH cnt by simp
    show "backup_root (snd (repos_loop tool rs (s', f') w')) = backup_root w"
      using IH ar(1) by simp
    show "screen_log (snd (repos_loop tool rs (s', f') w')) = screen_log w"
      using IH ar(2) by simp
    show "set (log w) \<subseteq> set (log (snd (repos_loop tool rs (s', f') w')))"
      using IH ar(3) by blast
    have "set (dirs (snd (repos_loop tool rs (s', f') w'))) = set (dirs w') \<union> repo_dir_of (backup_root w') ` set rs"
      using IH by blast
    then show "set (dirs (snd (repos_loop tool rs (s', f') w'))) =
      set (dirs w) \<union> repo_dir_of (backup_root w) ` set (r # rs)"
      unfolding ar(1) ar(4) by auto
    have "\<forall>x\<in>set (files (snd (repos_loop tool rs (s', f') w'))). x \<in> set (files w') \<or> repo_content (snd x)"
      using IH by blast
    with ar(5) show "\<forall>x\<in>set (files (snd (repos_loop tool rs (s', f') w'))). x \<in> set (files w) \<or> repo_content (snd x)"
      by blast
    have "mirrors (snd (repos_loop tool rs (s', f') w')) = mirrors w' @
          map (\<lambda>r. (path_join (repo_dir_of (backup_root w') r) ''git'', full_name r)) (filter clone_ok rs)"
      using IH by blast
    then show "mirrors (snd (repos_loop tool rs (s', f') w')) = mirrors w @
      map (\<lambda>r. (path_join (repo_dir_of (backup_root w) r) ''git'', full_name r)) (filter clone_ok (r # rs))"
      unfolding ar(1) ar(6) by (simp add: clone_ok_def)
  qed
qed

lemma mkdirs_simps [simp]:
  "fst (mkdirs ds w) = Inr ()"
  "backup_root (snd (mkdirs ds w)) = backup_root w"
  "set (dirs (snd (mkdirs ds w))) = set (dirs w) \<union> set ds"
  "files (snd (mkdirs ds w)) = files w"
  "mirrors (snd (mkdirs ds w)) = mirrors w"
  "screen_log (snd (mkdirs ds w)) = screen_log w"
  "log (snd (mkdirs ds w)) = log w"
  by (induction ds arbitrary: w; simp add: seq_alt; blast?)+

lemma create_backup_structure_simps [simp]:
  "fst (create_backup_structure tool ts w) = Inr ()"
  "backup_root (snd (create_backup_structure tool ts w)) = root_of tool ts"
  "set (dirs (snd (create_backup_structure tool ts w))) =
     set (dirs w) \<union> set (root_of tool ts # map (path_join (root_of tool ts)) directories)"
  "files (snd (create_backup_structure tool ts w)) = files w"
  "mirrors (snd (create_backup_structure tool ts w)) = mirrors w"
  "screen_log (snd (create_backup_structure tool ts w)) = screen_log w"
  "log (snd (create_backup_structure tool ts w)) =
     log w @ [(INFO, ''Created backup structure at '' @ root_of tool ts)]"
  by (simp_all add: create_backup_structure_def Let_def seq_alt)

lemma backup_user_metadata_simps:
  assumes "handled (get_keys (user tool))"
  shows "fst (backup_user_metadata tool w) = Inr ()"
    "backup_root (snd (backup_user_metadata tool w)) = backup_root w"
    "dirs (snd (backup_user_metadata tool w)) = dirs w"
    "mirrors (snd (backup_user_metadata tool w)) = mirrors w"
    "screen_log (snd (backup_user_metadata tool w)) = screen_log w"
    "set (log w) \<subseteq> set (log (snd (backup_user_metadata tool w)))"
    "\<forall>x\<in>set (files (snd (backup_user_metadata tool w))). x \<in> set (files w) \<or> account_content (snd x)"
  using assms
  by (auto simp: backup_user_metadata_def handled_def proc_defs account_content_def
      split: option.splits py_exception.splits)

lemma backup_gists_simps:
  assumes "gists_handled (get_gists (user tool))"
  shows "fst (backup_gists tool w) = Inr ()"
    "backup_root (snd (backup_gists tool w)) = backup_root w"
    "dirs (snd (backup_gists tool w)) = dirs w"
    "mirrors (snd (backup_gists tool w)) = mirrors w"
    "screen_log (snd (backup_gists tool w)) = screen_log w"
    "set (log w) \<subseteq> set (log (snd (backup_gists tool w)))"
  using assms
  by (auto simp: backup_gists_def gists_handled_def proc_defs
      split: sum.splits py_exception.splits)

lemma backup_repositories_simps:
  assumes "get_repos (user tool) = Inr repos" and "\<forall>r\<in>set repos. metadata_handled r"
  shows "fst (backup_repositories tool w) = Inr ()"
    "backup_root (snd (backup_repositories tool w)) = backup_root w"
    "screen_log (snd (backup_repositories tool w)) = screen_log w"
    "set (log w) \<subseteq> set (log (snd (backup_repositories tool w)))"
    "(INFO, completed_line (length (filter clone_ok repos), length (filter (\<lambda>r. \<not> clone_ok r) repos)))
       \<in> set (log (snd (backup_repositories tool w)))"
proof -
  define w1 where "w1 = snd (logger INFO (''Starting backup of '' @ show_nat (length repos) @ '' repositories'') w)"
  note lp = repos_loop_result [OF assms(2), where tool = tool and s = 0 and f = 0 and w = w1]
  define c where "c = (length (filter clone_ok repos), length (filter (\<lambda>r. \<not> clone_ok r) repos))"
  have eq: "backup_repositories tool w = logger INFO (completed_line c) (snd (repos_loop tool repos (0, 0) w1))"
    using lp assms(1)
    by (simp add: backup_repositories_def get_all_repositories_def bind_alt seq_alt w1_def c_def)
  have l1: "set (log w) \<subseteq> set (log w1)" by (auto simp: w1_def)
  show "fst (backup_repositories tool w) = Inr ()" unfolding eq by simp
  show "backup_root (snd (backup_repositories tool w)) = backup_root w"
    unfolding eq using lp by (simp add: w1_def)
  show "screen_log (snd (backup_repositories tool w)) = screen_log w"
    unfolding eq using lp by (simp add: w1_def)
  show "set (log w) \<subseteq> set (log (snd (backup_repositories tool w)))"
    unfolding eq using lp l1 by auto
  show "(INFO, completed_line (length (filter clone_ok repos), length (filter (\<lambda>r. \<not> clone_ok r) repos)))
       \<in> set (log (snd (backup_repositories tool w)))"
    unfolding eq c_def by simp
qed

lemma map_of_written: "map_of (filter (\<lambda>f. fst f \<noteq> p) xs @ [(p, c)]) p = Some c"
  by (induction xs) auto

lemma run_backup_result:
  assumes repos: "get_repos (user tool) = Inr repos"
    and meta: "\<forall>r\<in>set repos. metadata_handled r"
    and keys: "handled (get_keys (user tool))"
    and gists: "gists_handled (get_gists (user tool))"
  shows "fst (run_backup tool ts date w) = Inr () \<and>
     map_of (files (snd (run_backup tool ts date w))) (path_join (root_of tool ts) ''backup_summary.json'') =
       Some (Summary (make_summary tool date (root_of tool ts))) \<and>
     (INFO, completed_line (length (filter clone_ok repos), length (filter (\<lambda>r. \<not> clone_ok r) repos)))
       \<in> set (log (snd (run_backup tool ts date w)))"
proof -
  define w1 where "w1 = snd (create_backup_structure tool ts w)"
  define w2 where "w2 = snd (backup_user_metadata tool w1)"
  define w3 where "w3 = snd (backup_repositories tool w2)"
  define w4 where "w4 = snd (backup_gists tool w3)"
  define root where "root = root_of tool ts"
  define w5 where "w5 = snd (write_file (path_join root ''backup_summary.json'')
      (Summary (make_summary tool date root)) w4)"
  note um = backup_user_metadata_simps [OF keys, where w = w1, folded w2_def]
  note br = backup_repositories_simps [OF repos meta, where w = w2, folded w3_def]
  note bg = backup_gists_simps [OF gists, where w = w3, folded w4_def]
  have root4: "backup_root w4 = root"
    using um(2) br(2) bg(2) by (simp add: w1_def root_def)
  have run: "run_backup tool ts date w = (Inr (), w5)"
    using um(1) br(1) bg(1) root4
    by (simp add: run_backup_def try_except_alt seq_alt bind_alt w5_def
        w1_def [symmetric] w2_def [symmetric] w3_def [symmetric] w4_def [symmetric] split: sum.splits) 
  have line: "(INFO, completed_line (length (filter clone_ok repos), length (filter (\<lambda>r. \<not> clone_ok r) repos)))
       \<in> set (log w5)"
    using br(5) bg(6) by (auto simp: w5_def)
  show ?thesis
    unfolding run using line
    by (simp add: w5_def root_def map_of_written del: map_of_append)
qed

text \<open>
  Claim C6. For every repository, destination and state, \<^verbatim>\<open>clone_repository\<close> returns a
  value: \<^verbatim>\<open>True\<close> when \<^verbatim>\<open>Repo.clone_from\<close> raises nothing and \<^verbatim>\<open>False\<close> when it raises, whatever
  the exception. Nothing is propagated, and the directories and files of the run are as
  before the call.
\<close>

theorem clone_repository_soft_failure:
  "fst (clone_repository tool repo repo_dir w) = Inr (clone_from repo = None) \<and>
   (\<exists>w'. clone_repository tool repo repo_dir w = (Inr (clone_ok repo), w') \<and>
      backup_root w' = backup_root w \<and> dirs w' = dirs w \<and> files w' = files w)"
proof (intro conjI exI [of _ "snd (clone_repository tool repo repo_dir w)"])
  show "clone_repository tool repo repo_dir w =
      (Inr (clone_ok repo), snd (clone_repository tool repo repo_dir w))"
    by (simp add: prod_eq_iff clone_ok_def)
qed simp_all

lemma handled_simps [simp]:
  "handled None" "handled (Some (GithubException m))"
  "\<not> handled (Some (GitCommandError m))" "\<not> handled (Some (OtherException m))"
  by (simp_all add: handled_def)

lemma fixture_simps [simp]:
  "metadata_handled (repo_ok n)"
  "metadata_handled ((repo_ok n)\<lparr>clone_from := c\<rparr>)"
  "clone_ok (repo_ok n)"
  "clone_ok ((repo_ok n)\<lparr>clone_from := c\<rparr>) = (c = None)"
  "get_repos (user (tool_of rs k)) = Inr rs"
  "handled (get_keys (user (tool_of rs k)))"
  "gists_handled (get_gists (user (tool_of rs k)))"
  "root_of (tool_of rs k) ts = ''b/github_backup_octo_'' @ ts"
  "make_summary (tool_of rs k) date root =
     \<lparr>backup_date = date, user_login = ''octo'', backup_location = root,
      repositories_count = k, status = ''completed''\<rparr>"
  by (simp_all add: metadata_handled_def clone_ok_def repo_ok_def tool_of_def account_of_def
      gists_handled_def root_of_def path_join_def make_summary_def)

text \<open>
  Claim C1 as stated fails. Two repositories are enumerated and the second fails to clone:
  the summary has \<^verbatim>\<open>status = completed\<close>, not \<^verbatim>\<open>completed_with_errors\<close>; and when the
  account reports one public repository of its own, \<^verbatim>\<open>repositories_count\<close> is 1, not 2.
\<close>

theorem run_backup_status_counterexample:
  "fst (run_backup
      (tool_of [repo_ok ''a'', (repo_ok ''b'')\<lparr>clone_from := Some (GitCommandError ''exit 128'')\<rparr>] 2)
      ''t0'' ''t1'' fresh) = Inr () \<and>
   map_of (files (snd (run_backup
      (tool_of [repo_ok ''a'', (repo_ok ''b'')\<lparr>clone_from := Some (GitCommandError ''exit 128'')\<rparr>] 2)
      ''t0'' ''t1'' fresh))) ''b/github_backup_octo_t0/backup_summary.json'' =
     Some (Summary \<lparr>backup_date = ''t1'', user_login = ''octo'',
        backup_location = ''b/github_backup_octo_t0'', repositories_count = 2,
        status = ''completed''\<rparr>) \<and>
   ''completed'' \<noteq> ''completed_with_errors'' \<and>
   map_of (files (snd (run_backup
      (tool_of [repo_ok ''a'', (repo_ok ''b'')\<lparr>clone_from := Some (GitCommandError ''exit 128'')\<rparr>] 1)
      ''t0'' ''t1'' fresh))) ''b/github_backup_octo_t0/backup_summary.json'' =
     Some (Summary \<lparr>backup_date = ''t1'', user_login = ''octo'',
        backup_location = ''b/github_backup_octo_t0'', repositories_count = 1,
        status = ''completed''\<rparr>)"
  using run_backup_result [where tool = "tool_of [repo_ok ''a'', (repo_ok ''b'')\<lparr>clone_from := Some (GitCommandError ''exit 128'')\<rparr>] 2"
      and repos = "[repo_ok ''a'', (repo_ok ''b'')\<lparr>clone_from := Some (GitCommandError ''exit 128'')\<rparr>]"
      and ts = "''t0''" and date = "''t1''" and w = fresh]
    run_backup_result [where tool = "tool_of [repo_ok ''a'', (repo_ok ''b'')\<lparr>clone_from := Some (GitCommandError ''exit 128'')\<rparr>] 1"
      and repos = "[repo_ok ''a'', (repo_ok ''b'')\<lparr>clone_from := Some (GitCommandError ''exit 128'')\<rparr>]"
      and ts = "''t0''" and date = "''t1''" and w = fresh]
  by (simp add: path_join_def)

lemma selected_loop_step:
  assumes "metadata_handled r"
  shows "selected_loop tool (r # rs) (s, f) w =
     selected_loop tool rs (if clone_from r = None then (s + 1, f) else (s, f + 1)) (after_selected tool r w)"
  using assms
  by (simp add: bind_alt seq_alt metadata_simps after_selected_def Let_def)

lemma after_selected_simps:
  assumes "metadata_handled r"
  shows "backup_root (after_selected tool r w) = backup_root w"
    "set (screen_log w) \<subseteq> set (screen_log (after_selected tool r w))"
    "set (dirs (after_selected tool r w)) = insert (repo_dir_of (backup_root w) r) (set (dirs w))"
    "\<forall>x\<in>set (files (after_selected tool r w)). x \<in> set (files w) \<or> repo_content (snd x)"
    "mirrors (after_selected tool r w) = mirrors w @
       (if clone_from r = None then [(path_join (repo_dir_of (backup_root w) r) ''git'', full_name r)] else [])"
proof -
  show "backup_root (after_selected tool r w) = backup_root w"
    by (simp add: after_selected_def Let_def metadata_simps [OF assms])
  show "set (screen_log w) \<subseteq> set (screen_log (after_selected tool r w))"
    by (auto simp: after_selected_def Let_def metadata_simps [OF assms])
  show "set (dirs (after_selected tool r w)) = insert (repo_dir_of (backup_root w) r) (set (dirs w))"
    by (simp add: after_selected_def Let_def metadata_simps [OF assms])
  show "mirrors (after_selected tool r w) = mirrors w @
       (if clone_from r = None then [(path_join (repo_dir_of (backup_root w) r) ''git'', full_name r)] else [])"
    by (simp add: after_selected_def Let_def metadata_simps [OF assms])
  show "\<forall>x\<in>set (files (after_selected tool r w)). x \<in> set (files w) \<or> repo_content (snd x)"
    using metadata_files [OF assms]
    by (simp add: after_selected_def Let_def) fastforce
qed

lemma selected_loop_result:
  assumes "\<forall>r\<in>set rs. metadata_handled r"
  shows "fst (selected_loop tool rs (s, f) w) =
            Inr (s + length (filter clone_ok rs), f + length (filter (\<lambda>r. \<not> clone_ok r) rs)) \<and>
        backup_root (snd (selected_loop tool rs (s, f) w)) = backup_root w \<and>
        set (screen_log w) \<subseteq> set (screen_log (snd (selected_loop tool rs (s, f) w))) \<and>
        set (dirs (snd (selected_loop tool rs (s, f) w))) = set (dirs w) \<union> repo_dir_of (backup_root w) ` set rs \<and>
        (\<forall>x\<in>set (files (snd (selected_loop tool rs (s, f) w))). x \<in> set (files w) \<or> repo_content (snd x)) \<and>
        mirrors (snd (selected_loop tool rs (s, f) w)) = mirrors w @
          map (\<lambda>r. (path_join (repo_dir_of (backup_root w) r) ''git'', full_name r)) (filter clone_ok rs)"
  using assms
proof (induction rs arbitrary: s f w)
  case Nil
  then show ?case by simp
next
  case (Cons r rs)
  from Cons.prems have mh: "metadata_handled r" and rest: "\<forall>r\<in>set rs. metadata_handled r"
    by simp_all
  define w' where "w' = after_selected tool r w"
  define s' where "s' = (if clone_from r = None then s + 1 else s)"
  define f' where "f' = (if clone_from r = None then f else f + 1)"
  note ar = after_selected_simps [OF mh, where tool = tool and w = w, folded w'_def]
  have step: "selected_loop tool (r # rs) (s, f) w = selected_loop tool rs (s', f') w'"
    using selected_loop_step [OF mh, where tool = tool and rs = rs and s = s and f = f and w = w]
    by (simp add: s'_def f'_def w'_def)
  note IH = Cons.IH [OF rest, where s = s' and f = f' and w = w']
  have cnt: "s' + length (filter clone_ok rs) = s + length (filter clone_ok (r # rs))"
    "f' + length (filter (\<lambda>r. \<not> clone_ok r) rs) = f + length (filter (\<lambda>r. \<not> clone_ok r) (r # rs))"
    by (simp_all add: s'_def f'_def clone_ok_def)
  show ?case
    unfolding step
  proof (intro conjI)
    show "fst (selected_loop tool rs (s', f') w') =
      Inr (s + length (filter clone_ok (r # rs)), f + length (filter (\<lambda>r. \<not> clone_ok r) (r # rs)))"
      using IH cnt by simp
    show "backup_root (snd (selected_loop tool rs (s', f') w')) = backup_root w"
      using IH ar(1) by simp
    show "set (screen_log w) \<subseteq> set (screen_log (snd (selected_loop tool rs (s', f') w')))"
      using IH ar(2) by blast
    have "set (dirs (snd (selected_loop tool rs (s', f') w'))) = set (dirs w') \<union> repo_dir_of (backup_root w') ` set rs"
      using IH by blast
    then show "set (dirs (snd (selected_loop tool rs (s', f') w'))) =
      set (dirs w) \<union> repo_dir_of (backup_root w) ` set (r # rs)"
      unfolding ar(1) ar(3) by auto
    have "\<forall>x\<in>set (files (snd (selected_loop tool rs (s', f') w'))). x \<in> set (files w') \<or> repo_content (snd x)"
      using IH by blast
    with ar(4) show "\<forall>x\<in>set (files (snd (selected_loop tool rs (s', f') w'))). x \<in> set (files w) \<or> repo_content (snd x)"
      by blast
    have "mirrors (snd (selected_loop tool rs (s', f') w')) = mirrors w' @
          map (\<lambda>r. (path_join (repo_dir_of (backup_root w') r) ''git'', full_name r)) (filter clone_ok rs)"
      using IH by blast
    then show "mirrors (snd (selected_loop tool rs (s', f') w')) = mirrors w @
      map (\<lambda>r. (path_join (repo_dir_of (backup_root w) r) ''git'', full_name r)) (filter clone_ok (r # rs))"
      unfolding ar(1) ar(5) by (simp add: clone_ok_def)
  qed
qed

lemma backup_selected_simps:
  assumes "get_repos (user tool) = Inr repos"
    and "\<forall>r\<in>set (filter (\<lambda>r. name r \<in> sel) repos). metadata_handled r"
  shows "fst (backup_selected_repositories tool sel w) = Inr ()"
    "backup_root (snd (backup_selected_repositories tool sel w)) = backup_root w"
    "set (dirs (snd (backup_selected_repositories tool sel w))) =
       set (dirs w) \<union> repo_dir_of (backup_root w) ` set (filter (\<lambda>r. name r \<in> sel) repos)"
    "\<forall>x\<in>set (files (snd (backup_selected_repositories tool sel w))). x \<in> set (files w) \<or> repo_content (snd x)"
    "mirrors (snd (backup_selected_repositories tool sel w)) = mirrors w @
       map (\<lambda>r. (path_join (repo_dir_of (backup_root w) r) ''git'', full_name r))
         (filter clone_ok (filter (\<lambda>r. name r \<in> sel) repos))"
    "screen_log (snd (backup_selected_repositories tool sel w)) =
       screen_log (snd (selected_loop tool (filter (\<lambda>r. name r \<in> sel) repos) (0, 0) w)) @
       [completed_line (length (filter clone_ok (filter (\<lambda>r. name r \<in> sel) repos)),
          length (filter (\<lambda>r. \<not> clone_ok r) (filter (\<lambda>r. name r \<in> sel) repos)))]"
proof -
  define chosen where "chosen = filter (\<lambda>r. name r \<in> sel) repos"
  note lp = selected_loop_result [OF assms(2), where tool = tool and s = 0 and f = 0 and w = w,
      folded chosen_def]
  define c where "c = (length (filter clone_ok chosen), length (filter (\<lambda>r. \<not> clone_ok r) chosen))"
  have eq: "backup_selected_repositories tool sel w =
      log_write (completed_line c) (snd (selected_loop tool chosen (0, 0) w))"
    using lp assms(1)
    by (simp add: backup_selected_repositories_def get_all_repositories_def bind_alt c_def chosen_def)
  show "fst (backup_selected_repositories tool sel w) = Inr ()" unfolding eq by simp
  show "backup_root (snd (backup_selected_repositories tool sel w)) = backup_root w"
    unfolding eq using lp by simp
  show "set (dirs (snd (backup_selected_repositories tool sel w))) =
       set (dirs w) \<union> repo_dir_of (backup_root w) ` set (filter (\<lambda>r. name r \<in> sel) repos)"
    unfolding eq chosen_def [symmetric] using lp by simp
  show "\<forall>x\<in>set (files (snd (backup_selected_repositories tool sel w))). x \<in> set (files w) \<or> repo_content (snd x)"
    unfolding eq using lp by simp
  show "mirrors (snd (backup_selected_repositories tool sel w)) = mirrors w @
       map (\<lambda>r. (path_join (repo_dir_of (backup_root w) r) ''git'', full_name r))
         (filter clone_ok (filter (\<lambda>r. name r \<in> sel) repos))"
    unfolding eq chosen_def [symmetric] using lp by simp
  show "screen_log (snd (backup_selected_repositories tool sel w)) =
       screen_log (snd (selected_loop tool (filter (\<lambda>r. name r \<in> sel) repos) (0, 0) w)) @
       [completed_line (length (filter clone_ok (filter (\<lambda>r. name r \<in> sel) repos)),
          length (filter (\<lambda>r. \<not> clone_ok r) (filter (\<lambda>r. name r \<in> sel) repos)))]"
    unfolding eq chosen_def [symmetric] c_def by simp
qed

lemma selective_result:
  assumes repos: "get_repos (user tool) = Inr repos"
    and meta: "\<forall>r\<in>set (filter (\<lambda>r. name r \<in> sel) repos). metadata_handled r"
    and keys: "handled (get_keys (user tool))"
  shows "fst (run_selective_backup_sync tool sel ts w) = Inr ()"
    "set (dirs (snd (run_selective_backup_sync tool sel ts w))) =
       set (dirs w) \<union> set (root_of tool ts # map (path_join (root_of tool ts)) directories) \<union>
       repo_dir_of (root_of tool ts) ` set (filter (\<lambda>r. name r \<in> sel) repos)"
    "\<forall>x\<in>set (files (snd (run_selective_backup_sync tool sel ts w))).
       x \<in> set (files w) \<or> account_content (snd x) \<or> repo_content (snd x)"
    "mirrors (snd (run_selective_backup_sync tool sel ts w)) = mirrors w @
       map (\<lambda>r. (path_join (repo_dir_of (root_of tool ts) r) ''git'', full_name r))
         (filter clone_ok (filter (\<lambda>r. name r \<in> sel) repos))"
    "completed_line (length (filter clone_ok (filter (\<lambda>r. name r \<in> sel) repos)),
          length (filter (\<lambda>r. \<not> clone_ok r) (filter (\<lambda>r. name r \<in> sel) repos)))
       \<in> set (screen_log (snd (run_selective_backup_sync tool sel ts w)))"
proof -
  define w1 where "w1 = snd (create_backup_structure tool ts
      (snd (log_write ''Creating backup directory structure...'' w)))"
  define w2 where "w2 = snd (backup_user_metadata tool (snd (log_write ''Backing up user information...'' w1)))"
  define w2' where "w2' = snd (log_write ''Backing up selected repositories...'' w2)"
  define w3 where "w3 = snd (backup_selected_repositories tool sel w2')"
  define w4 where "w4 = snd (log_write ''Selective backup completed successfully!''
      (snd (log_write ''Skipping gists in selective backup...'' w3)))"
  note um = backup_user_metadata_simps [OF keys,
      where w = "snd (log_write ''Backing up user information...'' w1)", folded w2_def]
  note bs = backup_selected_simps [OF repos meta, where w = w2', folded w3_def]
  have run: "run_selective_backup_sync tool sel ts w = (Inr (), w4)"
    using um(1) bs(1)
    by (simp add: run_selective_backup_sync_def try_except_alt seq_alt w4_def
        w1_def [symmetric] w2_def [symmetric] w2'_def [symmetric] w3_def [symmetric] split: sum.splits)
  have root2: "backup_root w2' = root_of tool ts"
    using um(2) by (simp add: w2'_def w1_def)
  have dirs2: "set (dirs w2') = set (dirs w) \<union> set (root_of tool ts # map (path_join (root_of tool ts)) directories)"
    using um(3) by (simp add: w2'_def w1_def)
  have files2: "\<forall>x\<in>set (files w2'). x \<in> set (files w) \<or> account_content (snd x)"
    using um(7) by (simp add: w2'_def w1_def)
  have mir2: "mirrors w2' = mirrors w"
    using um(4) by (simp add: w2'_def w1_def)
  show "fst (run_selective_backup_sync tool sel ts w) = Inr ()" unfolding run by simp
  show "set (dirs (snd (run_selective_backup_sync tool sel ts w))) =
       set (dirs w) \<union> set (root_of tool ts # map (path_join (root_of tool ts)) directories) \<union>
       repo_dir_of (root_of tool ts) ` set (filter (\<lambda>r. name r \<in> sel) repos)"
    unfolding run using bs(3) by (simp add: w4_def root2 dirs2)
  show "\<forall>x\<in>set (files (snd (run_selective_backup_sync tool sel ts w))).
       x \<in> set (files w) \<or> account_content (snd x) \<or> repo_content (snd x)"
    unfolding run using bs(4) files2 by (simp add: w4_def) blast
  show "mirrors (snd (run_selective_backup_sync tool sel ts w)) = mirrors w @
       map (\<lambda>r. (path_join (repo_dir_of (root_of tool ts) r) ''git'', full_name r))
         (filter clone_ok (filter (\<lambda>r. name r \<in> sel) repos))"
    unfolding run using bs(5) by (simp add: w4_def root2 mir2)
  show "completed_line (length (filter clone_ok (filter (\<lambda>r. name r \<in> sel) repos)),
          length (filter (\<lambda>r. \<not> clone_ok r) (filter (\<lambda>r. name r \<in> sel) repos)))
       \<in> set (screen_log (snd (run_selective_backup_sync tool sel ts w)))"
    unfolding run using bs(6) by (simp add: w4_def)
qed

lemma not_summary_gists:
  "account_content c \<or> repo_content c \<Longrightarrow> (\<forall>sm. c \<noteq> Summary sm) \<and> (\<forall>n. c \<noteq> Gists n)"
  by (auto simp: account_content_def repo_content_def)

text \<open>
  Claim C7, amended. A selective run that returns has made, besides the fixed structure,
  exactly the directories of the enumerated repositories whose name is in the selection
  (a selected name that is not enumerated adds nothing), has cloned exactly those of them
  whose clone succeeds, and has written neither a gists file nor a summary: the selective
  run writes no manifest at all.
\<close>

theorem selective_backup_scope:
  assumes "get_repos (user tool) = Inr repos"
    and "\<forall>r\<in>set repos. name r \<in> sel \<longrightarrow> metadata_handled r"
    and "handled (get_keys (user tool))"
  shows "fst (run_selective_backup_sync tool sel ts w) = Inr () \<and>
     set (dirs (snd (run_selective_backup_sync tool sel ts w))) =
       set (dirs w) \<union> set (root_of tool ts # map (path_join (root_of tool ts)) directories) \<union>
       repo_dir_of (root_of tool ts) ` {r \<in> set repos. name r \<in> sel} \<and>
     mirrors (snd (run_selective_backup_sync tool sel ts w)) = mirrors w @
       map (\<lambda>r. (path_join (repo_dir_of (root_of tool ts) r) ''git'', full_name r))
         (filter (\<lambda>r. name r \<in> sel \<and> clone_ok r) repos) \<and>
     (\<forall>x\<in>set (files (snd (run_selective_backup_sync tool sel ts w))).
        x \<in> set (files w) \<or> (\<forall>sm. snd x \<noteq> Summary sm) \<and> (\<forall>n. snd x \<noteq> Gists n))"
proof -
  from assms(2) have meta: "\<forall>r\<in>set (filter (\<lambda>r. name r \<in> sel) repos). metadata_handled r"
    by simp
  note sr = selective_result [OF assms(1) meta assms(3), where ts = ts and w = w]
  have "{r \<in> set repos. name r \<in> sel} = set (filter (\<lambda>r. name r \<in> sel) repos)" by auto
  moreover have "filter (\<lambda>r. name r \<in> sel \<and> clone_ok r) repos = filter clone_ok (filter (\<lambda>r. name r \<in> sel) repos)"
    by (simp add: conj_commute)
  moreover have "\<forall>x\<in>set (files (snd (run_selective_backup_sync tool sel ts w))).
        x \<in> set (files w) \<or> (\<forall>sm. snd x \<noteq> Summary sm) \<and> (\<forall>n. snd x \<noteq> Gists n)"
    using sr(3) not_summary_gists by blast
  ultimately show ?thesis using sr(1,2,4) by simp
qed

lemma repo_ok_simps [simp]:
  "name (repo_ok n) = n" "full_name (repo_ok n) = ''octo/'' @ n"
  by (simp_all add: repo_ok_def)

theorem selective_backup_scope_witness:
  "fst (run_selective_backup_sync
      (tool_of [repo_ok ''r1'', repo_ok ''r2'', repo_ok ''r3'', repo_ok ''r4'', repo_ok ''r5''] 5)
      {''r2'', ''r4'', ''gone''} ''t0'' fresh) = Inr () \<and>
   set (dirs (snd (run_selective_backup_sync
      (tool_of [repo_ok ''r1'', repo_ok ''r2'', repo_ok ''r3'', repo_ok ''r4'', repo_ok ''r5''] 5)
      {''r2'', ''r4'', ''gone''} ''t0'' fresh))) =
     set (''b/github_backup_octo_t0'' # map (path_join ''b/github_backup_octo_t0'') directories) \<union>
     {''b/github_backup_octo_t0/repositories/r2'', ''b/github_backup_octo_t0/repositories/r4''} \<and>
   mirrors (snd (run_selective_backup_sync
      (tool_of [repo_ok ''r1'', repo_ok ''r2'', repo_ok ''r3'', repo_ok ''r4'', repo_ok ''r5''] 5)
      {''r2'', ''r4'', ''gone''} ''t0'' fresh)) =
     [(''b/github_backup_octo_t0/repositories/r2/git'', ''octo/r2''),
      (''b/github_backup_octo_t0/repositories/r4/git'', ''octo/r4'')]"
proof -
  let ?rs = "[repo_ok ''r1'', repo_ok ''r2'', repo_ok ''r3'', repo_ok ''r4'', repo_ok ''r5'']"
  have h1: "get_repos (user (tool_of ?rs 5)) = Inr ?rs" by simp
  have h2: "\<forall>r\<in>set ?rs. name r \<in> {''r2'', ''r4'', ''gone''} \<longrightarrow> metadata_handled r" by simp
  have h3: "handled (get_keys (user (tool_of ?rs 5)))" by simp
  note th = selective_backup_scope [OF h1 h2 h3, where ts = "''t0''" and w = fresh]
  from th have a: "fst (run_selective_backup_sync (tool_of ?rs 5) {''r2'', ''r4'', ''gone''} ''t0'' fresh) = Inr ()"
    by blast
  from th have "set (dirs (snd (run_selective_backup_sync (tool_of ?rs 5) {''r2'', ''r4'', ''gone''} ''t0'' fresh))) =
       set (dirs fresh) \<union> set (root_of (tool_of ?rs 5) ''t0'' # map (path_join (root_of (tool_of ?rs 5) ''t0'')) directories) \<union>
       repo_dir_of (root_of (tool_of ?rs 5) ''t0'') ` {r \<in> set ?rs. name r \<in> {''r2'', ''r4'', ''gone''}}"
    by blast
  also have "{r \<in> set ?rs. name r \<in> {''r2'', ''r4'', ''gone''}} = {repo_ok ''r2'', repo_ok ''r4''}"
    by auto
  finally have b: "set (dirs (snd (run_selective_backup_sync (tool_of ?rs 5) {''r2'', ''r4'', ''gone''} ''t0'' fresh))) =
     set (''b/github_backup_octo_t0'' # map (path_join ''b/github_backup_octo_t0'') directories) \<union>
     {''b/github_backup_octo_t0/repositories/r2'', ''b/github_backup_octo_t0/repositories/r4''}"
    by (simp add: fresh_def repo_dir_of_def path_join_def)
  from th have c: "mirrors (snd (run_selective_backup_sync (tool_of ?rs 5) {''r2'', ''r4'', ''gone''} ''t0'' fresh)) =
     [(''b/github_backup_octo_t0/repositories/r2/git'', ''octo/r2''),
      (''b/github_backup_octo_t0/repositories/r4/git'', ''octo/r4'')]"
    by (simp add: fresh_def repo_dir_of_def path_join_def)
  from a b c show ?thesis by blast
qed

text \<open>
  Claim C7 as stated fails: with two of five repositories selected the run returns, and
  no file it has written is a summary.
\<close>

theorem selective_backup_manifest_counterexample:
  "fst (run_selective_backup_sync
      (tool_of [repo_ok ''r1'', repo_ok ''r2'', repo_ok ''r3'', repo_ok ''r4'', repo_ok ''r5''] 5)
      {''r2'', ''r4''} ''t0'' fresh) = Inr () \<and>
   \<not> (\<exists>p sm. (p, Summary sm) \<in> set (files (snd (run_selective_backup_sync
      (tool_of [repo_ok ''r1'', repo_ok ''r2'', repo_ok ''r3'', repo_ok ''r4'', repo_ok ''r5''] 5)
      {''r2'', ''r4''} ''t0'' fresh))))"
proof -
  let ?rs = "[repo_ok ''r1'', repo_ok ''r2'', repo_ok ''r3'', repo_ok ''r4'', repo_ok ''r5'']"
  have h1: "get_repos (user (tool_of ?rs 5)) = Inr ?rs" by simp
  have h2: "\<forall>r\<in>set (filter (\<lambda>r. name r \<in> {''r2'', ''r4''}) ?rs). metadata_handled r" by simp
  have h3: "handled (get_keys (user (tool_of ?rs 5)))" by simp
  note sr = selective_result [OF h1 h2 h3, where ts = "''t0''" and w = fresh]
  have "\<forall>x\<in>set (files (snd (run_selective_backup_sync (tool_of ?rs 5) {''r2'', ''r4''} ''t0'' fresh))).
      account_content (snd x) \<or> repo_content (snd x)"
    using sr(3) by (simp add: fresh_def)
  then have "\<not> (\<exists>p sm. (p, Summary sm) \<in> set (files (snd (run_selective_backup_sync
      (tool_of ?rs 5) {''r2'', ''r4''} ''t0'' fresh))))"
    by (auto simp: account_content_def repo_content_def)
  with sr(1) show ?thesis by blast
qed

lemma tool_of_simps [simp]:
  "login (user (tool_of rs k)) = ''octo''" "public_repos (user (tool_of rs k)) = k"
  "total_private_repos (user (tool_of rs k)) = None"
  by (simp_all add: tool_of_def account_of_def)

text \<open>
  Claim C1, amended. When the enumeration succeeds and no call raises outside a handler
  (every repository's metadata is handled, and so are the keys and the gists),
  \<^verbatim>\<open>run_backup\<close> returns and has written \<^verbatim>\<open>backup_summary.json\<close>, however many clones
  failed, all of them included. The summary has \<^verbatim>\<open>status = completed\<close> and
  \<^verbatim>\<open>repositories_count = public_repos + (total_private_repos or 0)\<close> as the account
  reports them. The clone outcomes are tallied in the log only: the line
  \<^verbatim>\<open>Repository backup completed\<close> counts the clones that succeeded and those that failed,
  which together are the enumerated repositories.
\<close>

theorem run_backup_writes_manifest:
  assumes "get_repos (user tool) = Inr repos"
    and "\<forall>r\<in>set repos. metadata_handled r"
    and "handled (get_keys (user tool))"
    and "gists_handled (get_gists (user tool))"
  shows "fst (run_backup tool ts date w) = Inr () \<and>
     map_of (files (snd (run_backup tool ts date w))) (path_join (root_of tool ts) ''backup_summary.json'') =
       Some (Summary
         \<lparr>backup_date = date, user_login = login (user tool), backup_location = root_of tool ts,
          repositories_count =
            public_repos (user tool) + (case total_private_repos (user tool) of None \<Rightarrow> 0 | Some n \<Rightarrow> n),
          status = ''completed''\<rparr>) \<and>
     (INFO, completed_line (length (filter clone_ok repos), length (filter (\<lambda>r. \<not> clone_ok r) repos)))
       \<in> set (log (snd (run_backup tool ts date w))) \<and>
     length (filter clone_ok repos) + length (filter (\<lambda>r. \<not> clone_ok r) repos) = length repos"
  using run_backup_result [OF assms, where ts = ts and date = date and w = w]
  by (simp add: make_summary_def sum_length_filter_compl)

theorem run_backup_writes_manifest_witness:
  "fst (run_backup
      (tool_of [repo_ok ''a'', (repo_ok ''b'')\<lparr>clone_from := Some (GitCommandError ''exit 128'')\<rparr>, repo_ok ''c''] 3)
      ''t0'' ''t1'' fresh) = Inr () \<and>
   (INFO, completed_line (2, 1)) \<in> set (log (snd (run_backup
      (tool_of [repo_ok ''a'', (repo_ok ''b'')\<lparr>clone_from := Some (GitCommandError ''exit 128'')\<rparr>, repo_ok ''c''] 3)
      ''t0'' ''t1'' fresh))) \<and>
   map_of (files (snd (run_backup
      (tool_of [(repo_ok ''a'')\<lparr>clone_from := Some (OtherException ''no network'')\<rparr>] 1)
      ''t0'' ''t1'' fresh))) ''b/github_backup_octo_t0/backup_summary.json'' =
     Some (Summary \<lparr>backup_date = ''t1'', user_login = ''octo'',
        backup_location = ''b/github_backup_octo_t0'', repositories_count = 1,
        status = ''completed''\<rparr>)"
proof -
  let ?rs = "[repo_ok ''a'', (repo_ok ''b'')\<lparr>clone_from := Some (GitCommandError ''exit 128'')\<rparr>, repo_ok ''c'']"
  let ?qs = "[(repo_ok ''a'')\<lparr>clone_from := Some (OtherException ''no network'')\<rparr>]"
  have h1: "get_repos (user (tool_of ?rs 3)) = Inr ?rs" by simp
  have h2: "\<forall>r\<in>set ?rs. metadata_handled r" by simp
  have h3: "handled (get_keys (user (tool_of ?rs 3)))" by simp
  have h4: "gists_handled (get_gists (user (tool_of ?rs 3)))" by simp
  note th = run_backup_writes_manifest [OF h1 h2 h3 h4, where ts = "''t0''" and date = "''t1''" and w = fresh]
  from th have a: "fst (run_backup (tool_of ?rs 3) ''t0'' ''t1'' fresh) = Inr ()" by blast
  from th have b: "(INFO, completed_line (2, 1)) \<in> set (log (snd (run_backup (tool_of ?rs 3) ''t0'' ''t1'' fresh)))"
    by (simp add: numeral_2_eq_2)
  have k1: "get_repos (user (tool_of ?qs 1)) = Inr ?qs" by simp
  have k2: "\<forall>r\<in>set ?qs. metadata_handled r" by simp
  have k3: "handled (get_keys (user (tool_of ?qs 1)))" by simp
  have k4: "gists_handled (get_gists (user (tool_of ?qs 1)))" by simp
  from run_backup_writes_manifest [OF k1 k2 k3 k4, where ts = "''t0''" and date = "''t1''" and w = fresh]
  have c: "map_of (files (snd (run_backup (tool_of ?qs 1) ''t0'' ''t1'' fresh))) ''b/github_backup_octo_t0/backup_summary.json'' =
     Some (Summary \<lparr>backup_date = ''t1'', user_login = ''octo'',
        backup_location = ''b/github_backup_octo_t0'', repositories_count = 1,
        status = ''completed''\<rparr>)"
    by (simp add: path_join_def)
  from a b c show ?thesis by blast
qed

lemma metadata_raises:
  "get_topics r = Some e \<Longrightarrow> backup_repository_metadata tool r d w = (Inl e, w)"
  by (simp add: backup_repository_metadata_def seq_def bind_def call_def raise_def)

lemma repos_loop_raises:
  assumes "get_topics r = Some e"
  shows "fst (repos_loop tool (r # rs) (s, f) w) = Inl e"
    "files (snd (repos_loop tool (r # rs) (s, f) w)) = files w"
  using assms by (simp_all add: bind_alt seq_alt metadata_raises)

lemma run_backup_raises:
  assumes "get_repos (user tool) = Inr (r # rs)" and "get_topics r = Some e"
    and "handled (get_keys (user tool))"
  shows "fst (run_backup tool ts date w) = Inl e"
    "\<forall>x\<in>set (files (snd (run_backup tool ts date w))). x \<in> set (files w) \<or> account_content (snd x)"
proof -
  define w1 where "w1 = snd (create_backup_structure tool ts w)"
  define w2 where "w2 = snd (backup_user_metadata tool w1)"
  note um = backup_user_metadata_simps [OF assms(3), where w = w1, folded w2_def]
  define w2' where "w2' = snd (logger INFO (''Starting backup of '' @ show_nat (length (r # rs)) @ '' repositories'') w2)"
  note lr = repos_loop_raises [OF assms(2), where tool = tool and rs = rs and s = 0 and f = 0 and w = w2']
  have br: "fst (backup_repositories tool w2) = Inl e"
    "files (snd (backup_repositories tool w2)) = files w2"
    using lr assms(1)
    by (simp_all add: backup_repositories_def get_all_repositories_def bind_alt seq_alt w2'_def)
  have run: "run_backup tool ts date w =
      (Inl e, snd (logger ERROR (''Backup failed: '' @ exc_msg e) (snd (backup_repositories tool w2))))"
    using um(1) br(1)
    by (simp add: run_backup_def try_except_alt seq_alt w1_def [symmetric] w2_def [symmetric]
        prod_eq_iff)
  show "fst (run_backup tool ts date w) = Inl e" unfolding run by simp
  show "\<forall>x\<in>set (files (snd (run_backup tool ts date w))). x \<in> set (files w) \<or> account_content (snd x)"
    unfolding run using um(7) br(2) by (simp add: w1_def)
qed

text \<open>
  Claim C5, amended. When every repository's descriptive fetch succeeds and its issues
  and releases fetches raise nothing or a \<^verbatim>\<open>GithubException\<close>: for each repository
  \<^verbatim>\<open>backup_repository_metadata\<close> returns, \<^verbatim>\<open>metadata.json\<close> is written, \<^verbatim>\<open>issues.json\<close> is
  written exactly when the issues fetch succeeds and \<^verbatim>\<open>releases.json\<close> exactly when the
  releases fetch does, and each failure adds one warning to the log (nothing else records
  it); the loop counts every clone by its own outcome; and the run returns.
\<close>

theorem metadata_failures_are_soft:
  assumes "get_repos (user tool) = Inr repos"
    and "\<forall>r\<in>set repos. metadata_handled r"
    and "handled (get_keys (user tool))"
    and "gists_handled (get_gists (user tool))"
  shows "(\<forall>r\<in>set repos. \<forall>d w.
            fst (backup_repository_metadata tool r d w) = Inr () \<and>
            map fst (files (snd (backup_repository_metadata tool r d w))) =
              map fst (filter (\<lambda>f. fst f \<notin> {path_join d ''metadata.json''} \<union>
                     (if get_issues r = None then {path_join d ''issues.json''} else {}) \<union>
                     (if get_releases r = None then {path_join d ''releases.json''} else {})) (files w)) @
              [path_join d ''metadata.json''] @
              (if get_issues r = None then [path_join d ''issues.json''] else []) @
              (if get_releases r = None then [path_join d ''releases.json''] else []) \<and>
            log (snd (backup_repository_metadata tool r d w)) =
              log w @ warning_for ''issues'' r (get_issues r) @ warning_for ''releases'' r (get_releases r)) \<and>
         (\<forall>w. fst (repos_loop tool repos (0, 0) w) =
            Inr (length (filter clone_ok repos), length (filter (\<lambda>r. \<not> clone_ok r) repos))) \<and>
         (\<forall>ts date w. fst (run_backup tool ts date w) = Inr ())"
proof (intro conjI ballI allI)
  fix r d w
  assume "r \<in> set repos"
  with assms(2) have mh: "metadata_handled r" by blast
  show "fst (backup_repository_metadata tool r d w) = Inr ()"
    by (rule metadata_simps(1) [OF mh])
  show "map fst (files (snd (backup_repository_metadata tool r d w))) =
              map fst (filter (\<lambda>f. fst f \<notin> {path_join d ''metadata.json''} \<union>
                     (if get_issues r = None then {path_join d ''issues.json''} else {}) \<union>
                     (if get_releases r = None then {path_join d ''releases.json''} else {})) (files w)) @
              [path_join d ''metadata.json''] @
              (if get_issues r = None then [path_join d ''issues.json''] else []) @
              (if get_releases r = None then [path_join d ''releases.json''] else [])"
    unfolding metadata_simps(7) [OF mh] by simp
  show "log (snd (backup_repository_metadata tool r d w)) =
              log w @ warning_for ''issues'' r (get_issues r) @ warning_for ''releases'' r (get_releases r)"
    by (rule metadata_simps(6) [OF mh])
next
  fix w
  show "fst (repos_loop tool repos (0, 0) w) =
            Inr (length (filter clone_ok repos), length (filter (\<lambda>r. \<not> clone_ok r) repos))"
    using repos_loop_result [OF assms(2), where tool = tool and s = 0 and f = 0 and w = w] by simp
next
  fix ts date w
  show "fst (run_backup tool ts date w) = Inr ()"
    using run_backup_result [OF assms, where ts = ts and date = date and w = w] by blast
qed

theorem metadata_failures_are_soft_witness:
  "fst (backup_repository_metadata
      (tool_of [(repo_ok ''a'')\<lparr>get_issues := Some (GithubException ''410 issues disabled'')\<rparr>] 1)
      ((repo_ok ''a'')\<lparr>get_issues := Some (GithubException ''410 issues disabled'')\<rparr>) ''d'' fresh) = Inr () \<and>
   map fst (files (snd (backup_repository_metadata
      (tool_of [(repo_ok ''a'')\<lparr>get_issues := Some (GithubException ''410 issues disabled'')\<rparr>] 1)
      ((repo_ok ''a'')\<lparr>get_issues := Some (GithubException ''410 issues disabled'')\<rparr>) ''d'' fresh))) =
     [''d/metadata.json'', ''d/releases.json''] \<and>
   log (snd (backup_repository_metadata
      (tool_of [(repo_ok ''a'')\<lparr>get_issues := Some (GithubException ''410 issues disabled'')\<rparr>] 1)
      ((repo_ok ''a'')\<lparr>get_issues := Some (GithubException ''410 issues disabled'')\<rparr>) ''d'' fresh)) =
     [(WARNING, ''Could not backup issues for octo/a: 410 issues disabled'')] \<and>
   fst (run_backup
      (tool_of [(repo_ok ''a'')\<lparr>get_issues := Some (GithubException ''410 issues disabled'')\<rparr>] 1)
      ''t0'' ''t1'' fresh) = Inr ()"
proof -
  let ?r = "(repo_ok ''a'')\<lparr>get_issues := Some (GithubException ''410 issues disabled'')\<rparr>"
  have h1: "get_repos (user (tool_of [?r] 1)) = Inr [?r]" by simp
  have h2: "\<forall>r\<in>set [?r]. metadata_handled r" by (simp add: metadata_handled_def repo_ok_def)
  have h3: "handled (get_keys (user (tool_of [?r] 1)))" by simp
  have h4: "gists_handled (get_gists (user (tool_of [?r] 1)))" by simp
  note th = metadata_failures_are_soft [OF h1 h2 h3 h4]
  from th have m: "fst (backup_repository_metadata (tool_of [?r] 1) ?r ''d'' fresh) = Inr () \<and>
      map fst (files (snd (backup_repository_metadata (tool_of [?r] 1) ?r ''d'' fresh))) =
        map fst (filter (\<lambda>f. fst f \<notin> {path_join ''d'' ''metadata.json''} \<union>
                     (if get_issues ?r = None then {path_join ''d'' ''issues.json''} else {}) \<union>
                     (if get_releases ?r = None then {path_join ''d'' ''releases.json''} else {})) (files fresh)) @
              [path_join ''d'' ''metadata.json''] @
              (if get_issues ?r = None then [path_join ''d'' ''issues.json''] else []) @
              (if get_releases ?r = None then [path_join ''d'' ''releases.json''] else []) \<and>
      log (snd (backup_repository_metadata (tool_of [?r] 1) ?r ''d'' fresh)) =
        log fresh @ warning_for ''issues'' ?r (get_issues ?r) @ warning_for ''releases'' ?r (get_releases ?r)"
    by simp
  from th have r: "fst (run_backup (tool_of [?r] 1) ''t0'' ''t1'' fresh) = Inr ()" by blast
  from m r show ?thesis
    by (simp add: fresh_def path_join_def warning_for_def repo_ok_def)
qed

text \<open>
  Claim C5 as stated fails. A \<^verbatim>\<open>GithubException\<close> in the descriptive fetch leaves
  \<^verbatim>\<open>backup_repository_metadata\<close> before the issues and the releases are tried, and the run
  ends without a summary. An exception of another class in the issues fetch leaves it
  before the releases are tried.
\<close>

theorem metadata_failures_counterexample:
  "backup_repository_metadata
      (tool_of [(repo_ok ''a'')\<lparr>get_topics := Some (GithubException ''rate limit'')\<rparr>] 1)
      ((repo_ok ''a'')\<lparr>get_topics := Some (GithubException ''rate limit'')\<rparr>) ''d'' fresh =
     (Inl (GithubException ''rate limit''), fresh) \<and>
   fst (run_backup
      (tool_of [(repo_ok ''a'')\<lparr>get_topics := Some (GithubException ''rate limit'')\<rparr>] 1)
      ''t0'' ''t1'' fresh) = Inl (GithubException ''rate limit'') \<and>
   \<not> (\<exists>p sm. (p, Summary sm) \<in> set (files (snd (run_backup
      (tool_of [(repo_ok ''a'')\<lparr>get_topics := Some (GithubException ''rate limit'')\<rparr>] 1)
      ''t0'' ''t1'' fresh)))) \<and>
   fst (backup_repository_metadata
      (tool_of [(repo_ok ''a'')\<lparr>get_issues := Some (OtherException ''timed out'')\<rparr>] 1)
      ((repo_ok ''a'')\<lparr>get_issues := Some (OtherException ''timed out'')\<rparr>) ''d'' fresh) =
     Inl (OtherException ''timed out'') \<and>
   map fst (files (snd (backup_repository_metadata
      (tool_of [(repo_ok ''a'')\<lparr>get_issues := Some (OtherException ''timed out'')\<rparr>] 1)
      ((repo_ok ''a'')\<lparr>get_issues := Some (OtherException ''timed out'')\<rparr>) ''d'' fresh))) =
     [''d/metadata.json'']"
proof -
  let ?r = "(repo_ok ''a'')\<lparr>get_topics := Some (GithubException ''rate limit'')\<rparr>"
  let ?q = "(repo_ok ''a'')\<lparr>get_issues := Some (OtherException ''timed out'')\<rparr>"
  have t: "get_topics ?r = Some (GithubException ''rate limit'')" by simp
  have h1: "get_repos (user (tool_of [?r] 1)) = Inr [?r]" by simp
  have h3: "handled (get_keys (user (tool_of [?r] 1)))" by simp
  note rr = run_backup_raises [OF h1 t h3, where ts = "''t0''" and date = "''t1''" and w = fresh]
  have a: "backup_repository_metadata (tool_of [?r] 1) ?r ''d'' fresh = (Inl (GithubException ''rate limit''), fresh)"
    by (rule metadata_raises [OF t])
  have "\<forall>x\<in>set (files (snd (run_backup (tool_of [?r] 1) ''t0'' ''t1'' fresh))). account_content (snd x)"
    using rr(2) by (simp add: fresh_def)
  then have c: "\<not> (\<exists>p sm. (p, Summary sm) \<in> set (files (snd (run_backup (tool_of [?r] 1) ''t0'' ''t1'' fresh))))"
    by (auto simp: account_content_def)
  have d: "fst (backup_repository_metadata (tool_of [?q] 1) ?q ''d'' fresh) = Inl (OtherException ''timed out'')"
    "map fst (files (snd (backup_repository_metadata (tool_of [?q] 1) ?q ''d'' fresh))) = [''d/metadata.json'']"
    by (simp_all add: backup_repository_metadata_def proc_defs repo_ok_def fresh_def path_join_def)
  from a rr(1) c d show ?thesis by blast
qed

end
